theory Spec2Isabelle
  imports Complex_Main "HOL-Library.Multiset" "HOL-Library.Log_Nat"
begin

section \<open>Product performance engine of mon\_business\<close>

text \<open>
  Shallow embedding of \<^verbatim>\<open>src/lib/productPerformance.ts\<close>: the aggregation of ledger
  entries by product, the per-product metrics, the lifecycle classifier, the weighted
  score, the three rankings and the portfolio summary.

  Numbers. A finite JavaScript \<^verbatim>\<open>number\<close> is modelled as an exact rational: sums,
  products and quotients are those of \<open>rat\<close>, so the rounding error of IEEE-754 doubles
  is not part of that model. Where the order of the additions matters, the aggregator is
  modelled a second time with the additions of doubles (\<open>aggregate64\<close>); on integer
  amounts and quantities whose absolute values sum to less than \<open>2^53\<close> no addition rounds
  and the two aggregators agree (lemma \<open>aggregate64_exact\<close>). The inputs (amounts,
  quantities, the window) are finite numbers. The only division of the source whose
  divisor is neither a non-zero constant nor guarded by a test \<^verbatim>\<open>> 0\<close> is
  \<^verbatim>\<open>data.quantity / daysToAnalyze\<close>; its result, and the stock runway computed from
  it, range over \<open>jsnum\<close>, which adds the values \<^verbatim>\<open>Infinity\<close>, \<^verbatim>\<open>-Infinity\<close>
  and \<^verbatim>\<open>NaN\<close> that JavaScript returns instead of raising.
\<close>

subsection \<open>Numbers\<close>

datatype jsnum = Fin rat | PInf | NInf | NaN

text \<open>\<^verbatim>\<open>a / b\<close> for finite \<open>a\<close> and \<open>b\<close>: a zero divisor gives an infinity of the sign
  of \<open>a\<close>, and \<^verbatim>\<open>0 / 0\<close> is \<^verbatim>\<open>NaN\<close>.\<close>

definition js_div :: "rat \<Rightarrow> rat \<Rightarrow> jsnum" where
  "js_div a b =
     (if b \<noteq> 0 then Fin (a / b)
      else if a > 0 then PInf
      else if a < 0 then NInf
      else NaN)"

text \<open>\<^verbatim>\<open>a / d\<close> for a finite \<open>a\<close> and any \<open>d\<close>: a finite number divided by an infinity
  is zero, and \<^verbatim>\<open>NaN\<close> propagates.\<close>

definition js_div_by :: "rat \<Rightarrow> jsnum \<Rightarrow> jsnum" where
  "js_div_by a d =
     (case d of
        Fin b \<Rightarrow> js_div a b
      | PInf \<Rightarrow> Fin 0
      | NInf \<Rightarrow> Fin 0
      | NaN \<Rightarrow> NaN)"

text \<open>\<^verbatim>\<open>d > 0\<close>: every comparison with \<^verbatim>\<open>NaN\<close> is false.\<close>

definition js_gt0 :: "jsnum \<Rightarrow> bool" where
  "js_gt0 d = (case d of Fin b \<Rightarrow> b > 0 | PInf \<Rightarrow> True | NInf \<Rightarrow> False | NaN \<Rightarrow> False)"

text \<open>\<^verbatim>\<open>Math.round\<close> rounds to the nearest integer, a half towards \<open>+\<infinity>\<close>.\<close>

definition Math_round :: "rat \<Rightarrow> rat" where
  "Math_round x = of_int \<lfloor>x + 1 / 2\<rfloor>"

subsection \<open>Data model\<close>

text \<open>
  The fields of \<^verbatim>\<open>DailyEntry\<close> and \<^verbatim>\<open>StockItem\<close> that the engine reads. Field names
  carry a prefix (\<open>e_\<close>, \<open>s_\<close>, \<open>d_\<close>, \<open>sum_\<close>) where two record types of the source
  share a name. An optional field is an \<open>option\<close>.
\<close>

record DailyEntry =
  e_productId :: "string option"
  e_type :: string
  e_amount :: rat
  e_quantity :: "rat option"

record StockItem =
  s_id :: string
  s_name :: string
  s_quantity :: rat
  s_totalSold :: rat

text \<open>The values of the map \<^verbatim>\<open>dataByProduct\<close>.\<close>

record ProductData =
  d_revenue :: rat
  d_quantity :: rat
  d_totalCost :: rat

record ProductPerformance =
  productId :: string
  productName :: string
  totalRevenue :: rat
  unitsSold :: rat
  realizedProfit :: rat
  profitMargin :: rat
  projectedRevenue :: rat
  projectedProfit :: rat
  projectedMargin :: rat
  currentStock :: rat
  initialStock :: rat
  realizationRate :: rat
  unrealizedValue :: rat
  stockEfficiency :: rat
  daysOfStockLeft :: jsnum
  performanceScore :: rat
  performanceCategory :: string
  rankByRevenue :: nat
  rankByProfit :: nat
  rankByEfficiency :: nat
  stockTurnover :: rat
  estimatedProfit :: rat
  revenuePerUnit :: rat

record PerformanceSummary =
  sum_totalRevenue :: rat
  sum_totalProfit :: rat
  averageMargin :: rat
  bestByRevenue :: "ProductPerformance option"
  bestByProfit :: "ProductPerformance option"
  bestByScore :: "ProductPerformance option"
  totalProductsAnalyzed :: nat

record PerformanceCalculatorProps =
  entries :: "DailyEntry list"
  stockItems :: "StockItem list"
  daysToAnalyze :: "rat option"

record PerformanceReport =
  products :: "ProductPerformance list"
  summary :: PerformanceSummary

subsection \<open>Aggregation of the entries by product\<close>

definition noData :: ProductData where
  "noData = \<lparr>d_revenue = 0, d_quantity = 0, d_totalCost = 0\<rparr>"

text \<open>\<^verbatim>\<open>dataByProduct.get(k) || { revenue: 0, quantity: 0, totalCost: 0 }\<close>\<close>

definition getData :: "(string \<rightharpoonup> ProductData) \<Rightarrow> string \<Rightarrow> ProductData" where
  "getData m k = (case m k of None \<Rightarrow> noData | Some d \<Rightarrow> d)"

text \<open>\<^verbatim>\<open>entry.quantity || 0\<close>\<close>

definition quantityOr0 :: "DailyEntry \<Rightarrow> rat" where
  "quantityOr0 entry = (case e_quantity entry of None \<Rightarrow> 0 | Some q \<Rightarrow> q)"

text \<open>
  The body of \<^verbatim>\<open>entries.forEach\<close>. The test \<^verbatim>\<open>if (entry.productId)\<close> is a truthiness
  test: it fails for an absent product id and for the empty string.
\<close>

definition aggregateEntry ::
  "DailyEntry \<Rightarrow> (string \<rightharpoonup> ProductData) \<Rightarrow> (string \<rightharpoonup> ProductData)" where
  "aggregateEntry entry m =
     (case e_productId entry of
        None \<Rightarrow> m
      | Some pid \<Rightarrow>
          if pid = [] then m
          else
            let current = getData m pid in
            if e_type entry = ''SALE'' then
              m(pid \<mapsto> \<lparr>d_revenue = d_revenue current + e_amount entry,
                        d_quantity = d_quantity current + quantityOr0 entry,
                        d_totalCost = d_totalCost current\<rparr>)
            else if e_type entry = ''EXPENSE'' \<or> e_type entry = ''STOCK_IN'' then
              m(pid \<mapsto> \<lparr>d_revenue = d_revenue current,
                        d_quantity = d_quantity current,
                        d_totalCost = d_totalCost current + e_amount entry\<rparr>)
            else m)"

definition aggregate :: "DailyEntry list \<Rightarrow> (string \<rightharpoonup> ProductData)" where
  "aggregate es = fold aggregateEntry es Map.empty"

subsection \<open>Lifecycle classifier\<close>

definition categorizePerformance :: "rat \<Rightarrow> rat \<Rightarrow> rat \<Rightarrow> rat \<Rightarrow> string" where
  "categorizePerformance realizedProfit' projectedProfit' realizationRate' currentStock' =
     (if realizationRate' = 0 then ''NOT_STARTED''
      else if currentStock' = 0 then
        (if realizedProfit' > 0 then ''COMPLETED_PROFITABLE''
         else if realizedProfit' = 0 then ''COMPLETED_BREAKEVEN''
         else ''COMPLETED_LOSS'')
      else if realizationRate' < 100 then
        (if realizedProfit' > 0 \<and> projectedProfit' > 0 then ''IN_PROGRESS_STRONG''
         else if realizedProfit' < 0 \<and> projectedProfit' > 0 then ''IN_PROGRESS_RECOVERING''
         else if realizedProfit' < 0 \<and> projectedProfit' < 0 then ''IN_PROGRESS_TROUBLED''
         else if realizedProfit' > 0 \<and> projectedProfit' < 0 then ''IN_PROGRESS_DECLINING''
         else ''IN_PROGRESS_NEUTRAL'')
      else ''UNKNOWN'')"

subsection \<open>Score\<close>

definition calculateScore :: "rat \<Rightarrow> rat \<Rightarrow> rat \<Rightarrow> rat \<Rightarrow> rat \<Rightarrow> rat \<Rightarrow> rat" where
  "calculateScore revenue profit efficiency turnover margin realization =
     (let revenueScore = min ((revenue / 100000) * 100) 100;
          profitScore = min ((profit / 50000) * 100) 100;
          efficiencyScore = min efficiency 100;
          turnoverScore = min (turnover * 50) 100;
          marginScore = min margin 100;
          realizationScore = min realization 100
      in Math_round
           (revenueScore * (2 / 10) +
            profitScore * (3 / 10) +
            efficiencyScore * (2 / 10) +
            turnoverScore * (15 / 100) +
            marginScore * (15 / 100) +
            realizationScore * (1 / 10)))"

subsection \<open>Metrics of one stock item\<close>

text \<open>The function that \<^verbatim>\<open>stockItems.map\<close> applies to each item.\<close>

definition productMetrics ::
  "(string \<rightharpoonup> ProductData) \<Rightarrow> rat \<Rightarrow> StockItem \<Rightarrow> ProductPerformance" where
  "productMetrics dataByProduct days item =
     (let data = getData dataByProduct (s_id item);
          initialStock' = s_totalSold item + s_quantity item;
          actualCost = d_totalCost data;
          actualProfit = d_revenue data - actualCost;
          avgPrice = (if d_quantity data > 0 then d_revenue data / d_quantity data else 0);
          avgStock = (initialStock' + s_quantity item) / 2;
          stockTurnover' = (if avgStock > 0 then d_quantity data / avgStock else 0);
          dailySalesRate = js_div (d_quantity data) days;
          daysOfStockLeft' =
            (if js_gt0 dailySalesRate then js_div_by (s_quantity item) dailySalesRate
             else PInf);
          stockEfficiency' =
            (if initialStock' > 0 then (d_quantity data / initialStock') * 100 else 0);
          profitMargin' =
            (if d_revenue data > 0 then (actualProfit / d_revenue data) * 100 else 0);
          projectedRevenue' = d_revenue data + s_quantity item * avgPrice;
          projectedProfit' = projectedRevenue' - actualCost;
          realizationRate' =
            (if initialStock' > 0 then (d_quantity data / initialStock') * 100 else 0);
          unrealizedValue' = s_quantity item * avgPrice;
          performanceScore' =
            calculateScore (d_revenue data) actualProfit stockEfficiency' stockTurnover'
              profitMargin' realizationRate';
          projectedMargin' =
            (if projectedRevenue' > 0 then (projectedProfit' / projectedRevenue') * 100
             else 0);
          performanceCategory' =
            categorizePerformance actualProfit projectedProfit' realizationRate'
              (s_quantity item)
      in \<lparr>productId = s_id item,
          productName = s_name item,
          totalRevenue = d_revenue data,
          unitsSold = d_quantity data,
          realizedProfit = actualProfit,
          profitMargin = profitMargin',
          projectedRevenue = d_revenue data + s_quantity item * avgPrice,
          projectedProfit = d_revenue data + s_quantity item * avgPrice - actualCost,
          projectedMargin = projectedMargin',
          currentStock = s_quantity item,
          initialStock = initialStock',
          realizationRate = realizationRate',
          unrealizedValue = unrealizedValue',
          stockEfficiency = stockEfficiency',
          daysOfStockLeft = daysOfStockLeft',
          performanceScore = performanceScore',
          performanceCategory = performanceCategory',
          rankByRevenue = 0,
          rankByProfit = 0,
          rankByEfficiency = 0,
          stockTurnover = stockTurnover',
          estimatedProfit = actualProfit,
          revenuePerUnit = avgPrice\<rparr>)"

subsection \<open>Rankings\<close>

text \<open>
  \<^verbatim>\<open>Array.prototype.sort\<close> with a comparator is a stable sort: \<open>a\<close> comes before \<open>b\<close>
  when \<^verbatim>\<open>cmp(a, b) < 0\<close>, after it when \<^verbatim>\<open>cmp(a, b) > 0\<close>, and the two keep their
  order otherwise. \<open>sortBy\<close> inserts the elements from the last to the first, each in
  front of the first element that does not have to come before it.
\<close>

fun insertBy :: "('a \<Rightarrow> 'a \<Rightarrow> rat) \<Rightarrow> 'a \<Rightarrow> 'a list \<Rightarrow> 'a list" where
  "insertBy cmp x [] = [x]"
| "insertBy cmp x (y # ys) =
     (if cmp x y \<le> 0 then x # y # ys else y # insertBy cmp x ys)"

definition sortBy :: "('a \<Rightarrow> 'a \<Rightarrow> rat) \<Rightarrow> 'a list \<Rightarrow> 'a list" where
  "sortBy cmp xs = foldr (insertBy cmp) xs []"

text \<open>
  \<^verbatim>\<open>addRankings\<close> sorts shallow copies of the array and writes the ranks into the
  objects, which the copies share with \<^verbatim>\<open>products\<close>. The model keeps the objects in
  a store, the list \<open>products\<close> itself, where the address of an object is its index;
  a sorted copy is the list of the addresses in sorted order, and
  \<^verbatim>\<open>forEach((p, i) => (p.rank = i + 1))\<close> updates the store at each address in turn.
\<close>

definition writeRanks ::
  "(nat \<Rightarrow> ProductPerformance \<Rightarrow> ProductPerformance) \<Rightarrow> nat list \<Rightarrow>
   ProductPerformance list \<Rightarrow> ProductPerformance list" where
  "writeRanks setRank order store =
     fold (\<lambda>(i, a) st. st[a := setRank (i + 1) (st ! a)]) (enumerate 0 order) store"

definition addRankings :: "ProductPerformance list \<Rightarrow> ProductPerformance list" where
  "addRankings products' =
     (let addrs = [0..<length products'];
          byRevenue =
            sortBy (\<lambda>a b. totalRevenue (products' ! b) - totalRevenue (products' ! a)) addrs;
          st1 = writeRanks (\<lambda>r p. p\<lparr>rankByRevenue := r\<rparr>) byRevenue products';
          byProfit =
            sortBy (\<lambda>a b. estimatedProfit (st1 ! b) - estimatedProfit (st1 ! a)) addrs;
          st2 = writeRanks (\<lambda>r p. p\<lparr>rankByProfit := r\<rparr>) byProfit st1;
          byEfficiency =
            sortBy (\<lambda>a b. stockEfficiency (st2 ! b) - stockEfficiency (st2 ! a)) addrs;
          st3 = writeRanks (\<lambda>r p. p\<lparr>rankByEfficiency := r\<rparr>) byEfficiency st2
      in st3)"

subsection \<open>Summary\<close>

text \<open>\<^verbatim>\<open>products.length > 0 ? products.reduce((best, p) => key(p) > key(best) ? p : best) : null\<close>:
  a \<^verbatim>\<open>reduce\<close> without initial value starts from the first element.\<close>

definition bestBy ::
  "(ProductPerformance \<Rightarrow> rat) \<Rightarrow> ProductPerformance list \<Rightarrow> ProductPerformance option" where
  "bestBy key ps =
     (case ps of
        [] \<Rightarrow> None
      | p # rest \<Rightarrow> Some (foldl (\<lambda>best q. if key q > key best then q else best) p rest))"

definition calculateSummary :: "ProductPerformance list \<Rightarrow> PerformanceSummary" where
  "calculateSummary ps =
     (let totalRevenue' = foldl (\<lambda>sum p. sum + totalRevenue p) 0 ps;
          totalProfit = foldl (\<lambda>sum p. sum + estimatedProfit p) 0 ps;
          avgMargin = (if totalRevenue' > 0 then (totalProfit / totalRevenue') * 100 else 0)
      in \<lparr>sum_totalRevenue = totalRevenue',
          sum_totalProfit = totalProfit,
          averageMargin = avgMargin,
          bestByRevenue = bestBy totalRevenue ps,
          bestByProfit = bestBy estimatedProfit ps,
          bestByScore = bestBy performanceScore ps,
          totalProductsAnalyzed = length ps\<rparr>)"

subsection \<open>The engine\<close>

definition calculateProductPerformance :: "PerformanceCalculatorProps \<Rightarrow> PerformanceReport" where
  "calculateProductPerformance props =
     (let days = (case daysToAnalyze props of None \<Rightarrow> 30 | Some d \<Rightarrow> d);
          dataByProduct = aggregate (entries props);
          allProducts = map (productMetrics dataByProduct days) (stockItems props);
          activeProducts = filter (\<lambda>p. unitsSold p > 0) allProducts;
          withRankings = addRankings activeProducts
      in \<lparr>products = withRankings, summary = calculateSummary withRankings\<rparr>)"

subsection \<open>Aggregation in double precision\<close>

text \<open>
  The additions of \<^verbatim>\<open>entries.forEach\<close> are additions of IEEE-754 binary64 numbers: the
  exact sum of the two operands, rounded to the nearest double, a tie to the double with
  the even significand, and to an infinity when the rounded sum is \<open>2^1024\<close> or more in
  magnitude. \<open>round64\<close> is that rounding of a rational number: the unit in the last place
  of a number \<open>x\<close> with \<open>2^e \<le> |x| < 2^(e+1)\<close> is \<open>2^(e - 52)\<close>, and \<open>2^(-1074)\<close> below the
  normal range. The sign of a zero is not represented.
\<close>

definition pow2 :: "int \<Rightarrow> rat" where
  "pow2 k = (if 0 \<le> k then 2 ^ nat k else 1 / 2 ^ nat (- k))"

text \<open>\<open>\<lfloor>log\<^sub>2 x\<rfloor>\<close> for \<open>x > 0\<close>; \<open>bitlen n\<close> is the number of binary digits of \<open>n\<close>.\<close>

definition ilog2 :: "rat \<Rightarrow> int" where
  "ilog2 x = (if 1 \<le> x then bitlen \<lfloor>x\<rfloor> - 1 else - bitlen (\<lceil>1 / x\<rceil> - 1))"

definition roundTiesToEven :: "rat \<Rightarrow> int" where
  "roundTiesToEven y =
     (let f = \<lfloor>y\<rfloor>; r = y - of_int f
      in if r < 1 / 2 then f
         else if 1 / 2 < r then f + 1
         else if even f then f
         else f + 1)"

definition round64 :: "rat \<Rightarrow> jsnum" where
  "round64 x =
     (if x = 0 then Fin 0
      else
        let e = max (ilog2 \<bar>x\<bar>) (- 1022);
            ulp = pow2 (e - 52);
            y = of_int (roundTiesToEven (x / ulp)) * ulp
        in if pow2 1024 \<le> \<bar>y\<bar> then (if 0 < x then PInf else NInf) else Fin y)"

text \<open>\<^verbatim>\<open>a + b\<close> on numbers: \<^verbatim>\<open>NaN\<close> propagates, opposite infinities give \<^verbatim>\<open>NaN\<close>.\<close>

fun js_add :: "jsnum \<Rightarrow> jsnum \<Rightarrow> jsnum" where
  "js_add (Fin x) (Fin y) = round64 (x + y)"
| "js_add NaN b = NaN"
| "js_add a NaN = NaN"
| "js_add PInf NInf = NaN"
| "js_add NInf PInf = NaN"
| "js_add PInf b = PInf"
| "js_add a PInf = PInf"
| "js_add NInf b = NInf"
| "js_add a NInf = NInf"

text \<open>
  The aggregator with these additions: \<open>aggregateEntry64\<close> is \<open>aggregateEntry\<close> with
  \<open>js_add\<close> for \<open>+\<close>, on aggregates whose fields are numbers of the source. The amounts
  and quantities of the entries are taken to be doubles.
\<close>

record ProductData64 =
  f_revenue :: jsnum
  f_quantity :: jsnum
  f_totalCost :: jsnum

definition noData64 :: ProductData64 where
  "noData64 = \<lparr>f_revenue = Fin 0, f_quantity = Fin 0, f_totalCost = Fin 0\<rparr>"

definition getData64 :: "(string \<rightharpoonup> ProductData64) \<Rightarrow> string \<Rightarrow> ProductData64" where
  "getData64 m k = (case m k of None \<Rightarrow> noData64 | Some d \<Rightarrow> d)"

definition aggregateEntry64 ::
  "DailyEntry \<Rightarrow> (string \<rightharpoonup> ProductData64) \<Rightarrow> (string \<rightharpoonup> ProductData64)" where
  "aggregateEntry64 entry m =
     (case e_productId entry of
        None \<Rightarrow> m
      | Some pid \<Rightarrow>
          if pid = [] then m
          else
            let current = getData64 m pid in
            if e_type entry = ''SALE'' then
              m(pid \<mapsto> \<lparr>f_revenue = js_add (f_revenue current) (Fin (e_amount entry)),
                        f_quantity = js_add (f_quantity current) (Fin (quantityOr0 entry)),
                        f_totalCost = f_totalCost current\<rparr>)
            else if e_type entry = ''EXPENSE'' \<or> e_type entry = ''STOCK_IN'' then
              m(pid \<mapsto> \<lparr>f_revenue = f_revenue current,
                        f_quantity = f_quantity current,
                        f_totalCost = js_add (f_totalCost current) (Fin (e_amount entry))\<rparr>)
            else m)"

definition aggregate64 :: "DailyEntry list \<Rightarrow> (string \<rightharpoonup> ProductData64)" where
  "aggregate64 es = fold aggregateEntry64 es Map.empty"

subsection \<open>Reference definitions\<close>

text \<open>
  What the specification says the aggregate of a product is: the revenue is the sum of
  the amounts of the SALE entries with that product id, the quantity sold the sum of
  their quantities (0 when absent), and the cost the sum of the amounts of the EXPENSE
  and STOCK\_IN entries with that product id.
\<close>

definition spec_aggregate :: "DailyEntry list \<Rightarrow> string \<Rightarrow> ProductData" where
  "spec_aggregate es pid =
     \<lparr>d_revenue =
        sum_list (map e_amount
          (filter (\<lambda>e. e_productId e = Some pid \<and> e_type e = ''SALE'') es)),
      d_quantity =
        sum_list (map quantityOr0
          (filter (\<lambda>e. e_productId e = Some pid \<and> e_type e = ''SALE'') es)),
      d_totalCost =
        sum_list (map e_amount
          (filter (\<lambda>e. e_productId e = Some pid \<and>
                        (e_type e = ''EXPENSE'' \<or> e_type e = ''STOCK_IN'')) es))\<rparr>"

text \<open>
  What the specification calls a stable descending sort on a key: the stable sort of the
  library on the negated key. Lemmas \<open>stableSortDesc_sorted\<close>, \<open>stableSortDesc_mset\<close>
  and \<open>stableSortDesc_stable\<close> below state that it is one.
\<close>

definition stableSortDesc :: "('a \<Rightarrow> rat) \<Rightarrow> 'a list \<Rightarrow> 'a list" where
  "stableSortDesc key xs = sort_key (\<lambda>x. - key x) xs"

text \<open>Componentwise sum of two aggregates, and the entries that change the aggregate
  of a key; both are used in the proofs only.\<close>

definition addData :: "ProductData \<Rightarrow> ProductData \<Rightarrow> ProductData" where
  "addData a b = \<lparr>d_revenue = d_revenue a + d_revenue b, d_quantity = d_quantity a + d_quantity b,
     d_totalCost = d_totalCost a + d_totalCost b\<rparr>"

definition touches :: "DailyEntry \<Rightarrow> string \<Rightarrow> bool" where
  "touches e k \<longleftrightarrow>
     k \<noteq> [] \<and> e_productId e = Some k \<and>
     (e_type e = ''SALE'' \<or> e_type e = ''EXPENSE'' \<or> e_type e = ''STOCK_IN'')"

text \<open>
  Entries whose additions cannot round: every amount and quantity is an integer, and the
  absolute amounts, and the absolute quantities, sum to less than \<open>2^53\<close>. \<open>toData64\<close>
  reads an exact aggregate as an aggregate of doubles; \<open>safeData\<close> is the invariant of
  the proof.
\<close>

definition toData64 :: "ProductData \<Rightarrow> ProductData64" where
  "toData64 d =
     \<lparr>f_revenue = Fin (d_revenue d), f_quantity = Fin (d_quantity d),
        f_totalCost = Fin (d_totalCost d)\<rparr>"

definition isInteger :: "rat \<Rightarrow> bool" where
  "isInteger x \<longleftrightarrow> of_int \<lfloor>x\<rfloor> = x"

definition safeEntries :: "DailyEntry list \<Rightarrow> bool" where
  "safeEntries es \<longleftrightarrow>
     list_all (\<lambda>e. isInteger (e_amount e) \<and> isInteger (quantityOr0 e)) es \<and>
     sum_list (map (\<lambda>e. \<bar>e_amount e\<bar>) es) < 2 ^ 53 \<and>
     sum_list (map (\<lambda>e. \<bar>quantityOr0 e\<bar>) es) < 2 ^ 53"

definition safeData :: "rat \<Rightarrow> rat \<Rightarrow> ProductData \<Rightarrow> bool" where
  "safeData Ba Bq d \<longleftrightarrow>
     isInteger (d_revenue d) \<and> \<bar>d_revenue d\<bar> \<le> Ba \<and>
     isInteger (d_totalCost d) \<and> \<bar>d_totalCost d\<bar> \<le> Ba \<and>
     isInteger (d_quantity d) \<and> \<bar>d_quantity d\<bar> \<le> Bq"

subsection \<open>Concrete inputs\<close>

text \<open>
  Scenario A of the specification (revenue 100000, cost 50000, 10 units sold, stock 0,
  total sold 10), together with the stock item of its scenario B (5 in stock, nothing
  sold, no entry); scenario B alone, next to entries of a product that is not in stock;
  an invocation with a window of 0 days; and three products of which the first and the
  third have the same revenue and the same stock efficiency.
\<close>

definition scenarioA :: PerformanceCalculatorProps where
  "scenarioA =
     \<lparr>entries =
        [\<lparr>e_productId = Some ''p1'', e_type = ''SALE'', e_amount = 100000, e_quantity = Some 10\<rparr>,
         \<lparr>e_productId = Some ''p1'', e_type = ''EXPENSE'', e_amount = 50000, e_quantity = None\<rparr>],
      stockItems =
        [\<lparr>s_id = ''p1'', s_name = ''A'', s_quantity = 0, s_totalSold = 10\<rparr>,
         \<lparr>s_id = ''p2'', s_name = ''B'', s_quantity = 5, s_totalSold = 0\<rparr>],
      daysToAnalyze = None\<rparr>"

definition scenarioB :: PerformanceCalculatorProps where
  "scenarioB =
     \<lparr>entries =
        [\<lparr>e_productId = Some ''p1'', e_type = ''SALE'', e_amount = 100000, e_quantity = Some 10\<rparr>,
         \<lparr>e_productId = Some ''p1'', e_type = ''EXPENSE'', e_amount = 50000, e_quantity = None\<rparr>],
      stockItems = [\<lparr>s_id = ''p2'', s_name = ''B'', s_quantity = 5, s_totalSold = 0\<rparr>],
      daysToAnalyze = None\<rparr>"

definition zeroWindow :: PerformanceCalculatorProps where
  "zeroWindow =
     \<lparr>entries =
        [\<lparr>e_productId = Some ''p1'', e_type = ''SALE'', e_amount = 1000, e_quantity = Some 2\<rparr>],
      stockItems = [\<lparr>s_id = ''p1'', s_name = ''A'', s_quantity = 5, s_totalSold = 2\<rparr>],
      daysToAnalyze = Some 0\<rparr>"

definition tieScenario :: PerformanceCalculatorProps where
  "tieScenario =
     \<lparr>entries =
        [\<lparr>e_productId = Some ''p1'', e_type = ''SALE'', e_amount = 100, e_quantity = Some 1\<rparr>,
         \<lparr>e_productId = Some ''p2'', e_type = ''SALE'', e_amount = 200, e_quantity = Some 1\<rparr>,
         \<lparr>e_productId = Some ''p3'', e_type = ''SALE'', e_amount = 100, e_quantity = Some 4\<rparr>,
         \<lparr>e_productId = Some ''p3'', e_type = ''STOCK_IN'', e_amount = 300, e_quantity = Some 4\<rparr>],
      stockItems =
        [\<lparr>s_id = ''p1'', s_name = ''A'', s_quantity = 1, s_totalSold = 1\<rparr>,
         \<lparr>s_id = ''p2'', s_name = ''B'', s_quantity = 5, s_totalSold = 1\<rparr>,
         \<lparr>s_id = ''p3'', s_name = ''C'', s_quantity = 4, s_totalSold = 4\<rparr>],
      daysToAnalyze = None\<rparr>"

text \<open>
  Three SALE entries of one product with the amounts \<open>2^53\<close>, 1 and 1, and three with
  the amounts that the literals \<^verbatim>\<open>0.1\<close>, \<^verbatim>\<open>0.2\<close> and \<^verbatim>\<open>0.3\<close> denote (lemma
  \<open>decimal_amounts\<close>).
\<close>

definition roundingEntries :: "DailyEntry list" where
  "roundingEntries =
     [\<lparr>e_productId = Some ''p1'', e_type = ''SALE'', e_amount = 9007199254740992, e_quantity = Some 1\<rparr>,
      \<lparr>e_productId = Some ''p1'', e_type = ''SALE'', e_amount = 1, e_quantity = Some 1\<rparr>,
      \<lparr>e_productId = Some ''p1'', e_type = ''SALE'', e_amount = 1, e_quantity = Some 1\<rparr>]"

definition decimalEntries :: "DailyEntry list" where
  "decimalEntries =
     [\<lparr>e_productId = Some ''p1'', e_type = ''SALE'',
        e_amount = 3602879701896397 / 36028797018963968, e_quantity = Some 1\<rparr>,
      \<lparr>e_productId = Some ''p1'', e_type = ''SALE'',
        e_amount = 3602879701896397 / 18014398509481984, e_quantity = Some 1\<rparr>,
      \<lparr>e_productId = Some ''p1'', e_type = ''SALE'',
        e_amount = 5404319552844595 / 18014398509481984, e_quantity = Some 1\<rparr>]"

section \<open>Lemmas\<close>

subsection \<open>Aggregation\<close>

lemma getData_aggregateEntry:
  assumes "pid \<noteq> []"
  shows "getData (aggregateEntry e m) pid = addData (getData m pid) (spec_aggregate [e] pid)"
proof (cases "e_productId e")
  case None
  then show ?thesis
    by (simp add: aggregateEntry_def addData_def spec_aggregate_def)
next
  case (Some k)
  show ?thesis
  proof (cases "k = pid")
    case True
    with Some assms show ?thesis
      by (cases "e_type e = ''SALE''"; cases "e_type e = ''EXPENSE''";
          cases "e_type e = ''STOCK_IN''")
         (simp_all add: aggregateEntry_def getData_def addData_def spec_aggregate_def Let_def)
  next
    case False
    with Some show ?thesis
      by (simp add: aggregateEntry_def getData_def addData_def spec_aggregate_def Let_def)
  qed
qed

lemma spec_aggregate_Cons:
  "spec_aggregate (e # es) pid = addData (spec_aggregate [e] pid) (spec_aggregate es pid)"
  by (auto simp: spec_aggregate_def addData_def)

lemma addData_assoc: "addData (addData a b) c = addData a (addData b c)"
  by (simp add: addData_def)

lemma addData_noData [simp]: "addData noData a = a"
  by (simp add: addData_def noData_def)

lemma getData_fold:
  "pid \<noteq> [] \<Longrightarrow>
   getData (fold aggregateEntry es m) pid = addData (getData m pid) (spec_aggregate es pid)"
proof (induction es arbitrary: m)
  case Nil
  then show ?case by (simp add: spec_aggregate_def addData_def)
next
  case (Cons e es)
  then show ?case
    by (simp add: getData_aggregateEntry addData_assoc spec_aggregate_Cons[of e es])
qed

lemma getData_aggregate:
  "pid \<noteq> [] \<Longrightarrow> getData (aggregate es) pid = spec_aggregate es pid"
  by (simp add: aggregate_def getData_fold) (simp add: getData_def)

lemma aggregateEntry_empty_key: "m [] = None \<Longrightarrow> aggregateEntry e m [] = None"
  by (auto simp: aggregateEntry_def Let_def split: option.splits)

lemma fold_empty_key: "m [] = None \<Longrightarrow> fold aggregateEntry es m [] = None"
  by (induction es arbitrary: m) (simp_all add: aggregateEntry_empty_key)

lemma getData_aggregate_empty_key: "getData (aggregate es) [] = noData"
  by (simp add: aggregate_def getData_def fold_empty_key)

lemma aggregateEntry_apply:
  "aggregateEntry e m k =
     (if touches e k then Some (addData (getData m k) (spec_aggregate [e] k)) else m k)"
proof (cases "e_productId e")
  case None
  then show ?thesis by (simp add: aggregateEntry_def touches_def)
next
  case (Some pid)
  then show ?thesis
    by (cases "e_type e = ''SALE''"; cases "e_type e = ''EXPENSE''";
        cases "e_type e = ''STOCK_IN''"; cases "pid = k")
       (simp_all add: aggregateEntry_def addData_def spec_aggregate_def Let_def touches_def)
qed

lemma getData_aggregateEntry_apply:
  "getData (aggregateEntry e m) k =
     (if touches e k then addData (getData m k) (spec_aggregate [e] k) else getData m k)"
  by (simp add: getData_def[of "aggregateEntry e m"] aggregateEntry_apply)
     (simp add: getData_def)

lemma addData_right_commute: "addData (addData a b) c = addData (addData a c) b"
  by (simp add: addData_def)

lemma aggregateEntry_commute:
  "aggregateEntry a (aggregateEntry b m) = aggregateEntry b (aggregateEntry a m)"
proof (rule ext)
  fix k
  show "aggregateEntry a (aggregateEntry b m) k = aggregateEntry b (aggregateEntry a m) k"
    by (simp add: aggregateEntry_apply[of a] aggregateEntry_apply[of b]
          getData_aggregateEntry_apply addData_right_commute[of _ "spec_aggregate [a] k"])
qed

lemma aggregate_permutation:
  assumes "mset es = mset es'"
  shows "aggregate es = aggregate es'"
  unfolding aggregate_def
proof -
  have "fold aggregateEntry es = fold aggregateEntry es'"
    by (rule fold_multiset_equiv) (simp_all add: fun_eq_iff aggregateEntry_commute assms)
  then show "fold aggregateEntry es Map.empty = fold aggregateEntry es' Map.empty"
    by simp
qed

subsection \<open>Aggregation in double precision\<close>

lemma roundTiesToEven_of_int [simp]: "roundTiesToEven (of_int z) = z"
  by (simp add: roundTiesToEven_def)

lemma ilog2_of_int:
  assumes "0 < n"
  shows "ilog2 (of_int n) = bitlen n - 1"
  using assms by (simp add: ilog2_def)

lemma round64_of_int:
  assumes "\<bar>n\<bar> < 2 ^ 53"
  shows "round64 (of_int n) = Fin (of_int n)"
proof (cases "n = 0")
  case True
  then show ?thesis by (simp add: round64_def)
next
  case False
  define a where "a = \<bar>n\<bar>"
  have a: "0 < a" "a < 2 ^ 53" using False assms by (simp_all add: a_def)
  define e where "e = bitlen a - 1"
  have b: "2 ^ nat e \<le> a" "a < 2 ^ nat (bitlen a)"
    using bitlen_bounds[OF a(1)] by (simp_all add: e_def)
  have e0: "0 \<le> e"
    using a(1) bitlen_eq_zero_iff[of a] bitlen_nonneg[of a] by (simp add: e_def)
  have "(2::int) ^ nat e < 2 ^ 53" using b(1) a(2) by simp
  then have "nat e < 53" by (rule power_less_imp_less_exp[rotated]) simp
  then have e52: "e \<le> 52" by simp
  have il: "ilog2 \<bar>rat_of_int n\<bar> = e"
    using ilog2_of_int[OF a(1)] by (simp add: a_def e_def)
  define k where "k = nat (52 - e)"
  have u: "pow2 (e - 52) = 1 / 2 ^ k"
    using e52 by (cases "e = 52") (simp_all add: pow2_def k_def)
  have q: "rat_of_int n / (1 / 2 ^ k) = of_int (n * 2 ^ k)" by simp
  have small: "\<bar>rat_of_int n\<bar> < pow2 1024"
  proof -
    have "\<bar>rat_of_int n\<bar> < 2 ^ 53"
      using assms by (metis of_int_abs of_int_less_numeral_power_cancel_iff)
    also have "(2::rat) ^ 53 \<le> 2 ^ 1024" by (rule power_increasing) simp_all
    finally show ?thesis by (simp add: pow2_def)
  qed
  have m: "max e (- 1022) = e" using e0 by simp
  have y: "of_int (roundTiesToEven (rat_of_int n / pow2 (e - 52))) * pow2 (e - 52) = rat_of_int n"
    unfolding u q roundTiesToEven_of_int by simp
  show ?thesis
    using False small unfolding round64_def Let_def il m y by (simp add: not_le)
qed

lemma js_add_integers:
  assumes "isInteger a" and "isInteger b" and "\<bar>a + b\<bar> < 2 ^ 53"
  shows "js_add (Fin a) (Fin b) = Fin (a + b)" and "isInteger (a + b)"
proof -
  obtain i j where a: "a = of_int i" and b: "b = of_int j"
    using assms(1,2) unfolding isInteger_def by metis
  have "\<bar>rat_of_int (i + j)\<bar> < 2 ^ 53"
    using assms(3) by (simp add: a b)
  then have "\<bar>i + j\<bar> < 2 ^ 53"
    by (metis of_int_abs of_int_less_numeral_power_cancel_iff)
  then have "round64 (of_int (i + j)) = Fin (of_int (i + j))"
    by (rule round64_of_int)
  then show "js_add (Fin a) (Fin b) = Fin (a + b)"
    by (simp add: a b)
  show "isInteger (a + b)"
    unfolding isInteger_def a b by (metis floor_of_int of_int_add)
qed

lemma getData64_lift:
  "m64 = map_option toData64 \<circ> m \<Longrightarrow> getData64 m64 k = toData64 (getData m k)"
  by (cases "m k") (simp_all add: getData64_def getData_def noData64_def noData_def toData64_def)

lemma safeData_getData:
  assumes "\<forall>k d. m k = Some d \<longrightarrow> safeData Ba Bq d" and "0 \<le> Ba" and "0 \<le> Bq"
  shows "safeData Ba Bq (getData m k)"
  using assms by (cases "m k") (simp_all add: getData_def noData_def safeData_def isInteger_def)

lemma safeData_mono:
  "safeData Ba Bq d \<Longrightarrow> Ba \<le> Ba' \<Longrightarrow> Bq \<le> Bq' \<Longrightarrow> safeData Ba' Bq' d"
  by (auto simp: safeData_def)

lemma aggregateEntry64_step:
  assumes lift: "m64 = map_option toData64 \<circ> m"
    and inv: "\<forall>k d. m k = Some d \<longrightarrow> safeData Ba Bq d"
    and pos: "0 \<le> Ba" "0 \<le> Bq"
    and ints: "isInteger (e_amount e)" "isInteger (quantityOr0 e)"
    and bound: "Ba + \<bar>e_amount e\<bar> < 2 ^ 53" "Bq + \<bar>quantityOr0 e\<bar> < 2 ^ 53"
  shows "aggregateEntry64 e m64 = map_option toData64 \<circ> aggregateEntry e m"
    and "\<forall>k d. aggregateEntry e m k = Some d \<longrightarrow>
           safeData (Ba + \<bar>e_amount e\<bar>) (Bq + \<bar>quantityOr0 e\<bar>) d"
proof -
  have old: "safeData (Ba + \<bar>e_amount e\<bar>) (Bq + \<bar>quantityOr0 e\<bar>) d" if "m k = Some d" for k d
  proof -
    from inv that have "safeData Ba Bq d" by blast
    then show ?thesis by (rule safeData_mono) simp_all
  qed
  show "\<forall>k d. aggregateEntry e m k = Some d \<longrightarrow>
           safeData (Ba + \<bar>e_amount e\<bar>) (Bq + \<bar>quantityOr0 e\<bar>) d"
  proof (intro allI impI)
    fix k d assume kd: "aggregateEntry e m k = Some d"
    show "safeData (Ba + \<bar>e_amount e\<bar>) (Bq + \<bar>quantityOr0 e\<bar>) d"
    proof (cases "touches e k")
      case False
      with kd have "m k = Some d" by (simp add: aggregateEntry_apply)
      then show ?thesis by (rule old)
    next
      case True
      then have pid: "e_productId e = Some k" "k \<noteq> []" by (simp_all add: touches_def)
      have cur: "safeData Ba Bq (getData m k)"
        using inv pos by (rule safeData_getData)
      have r: "\<bar>d_revenue (getData m k) + e_amount e\<bar> < 2 ^ 53"
        and c: "\<bar>d_totalCost (getData m k) + e_amount e\<bar> < 2 ^ 53"
        and q: "\<bar>d_quantity (getData m k) + quantityOr0 e\<bar> < 2 ^ 53"
        using cur bound by (auto simp: safeData_def)
      show ?thesis
      proof (cases "e_type e = ''SALE''")
        case True
        with pid kd have "d = \<lparr>d_revenue = d_revenue (getData m k) + e_amount e,
            d_quantity = d_quantity (getData m k) + quantityOr0 e,
            d_totalCost = d_totalCost (getData m k)\<rparr>"
          by (auto simp: aggregateEntry_def Let_def)
        then show ?thesis
          using cur js_add_integers(2)[OF _ ints(1) r] js_add_integers(2)[OF _ ints(2) q]
          by (auto simp: safeData_def)
      next
        case False
        with True have "e_type e = ''EXPENSE'' \<or> e_type e = ''STOCK_IN''"
          by (simp add: touches_def)
        with False pid kd have "d = \<lparr>d_revenue = d_revenue (getData m k),
            d_quantity = d_quantity (getData m k),
            d_totalCost = d_totalCost (getData m k) + e_amount e\<rparr>"
          by (auto simp: aggregateEntry_def Let_def)
        then show ?thesis
          using cur js_add_integers(2)[OF _ ints(1) c]
          by (auto simp: safeData_def)
      qed
    qed
  qed
  show "aggregateEntry64 e m64 = map_option toData64 \<circ> aggregateEntry e m"
  proof (cases "e_productId e")
    case None
    then show ?thesis by (simp add: aggregateEntry64_def aggregateEntry_def lift)
  next
    case (Some pid)
    show ?thesis
    proof (cases "pid = []")
      case True
      with Some show ?thesis by (simp add: aggregateEntry64_def aggregateEntry_def lift)
    next
      case False
      have cur: "safeData Ba Bq (getData m pid)"
        using inv pos by (rule safeData_getData)
      have g: "getData64 (map_option toData64 \<circ> m) pid = toData64 (getData m pid)"
        by (rule getData64_lift) simp
      have r: "\<bar>d_revenue (getData m pid) + e_amount e\<bar> < 2 ^ 53"
        and c: "\<bar>d_totalCost (getData m pid) + e_amount e\<bar> < 2 ^ 53"
        and q: "\<bar>d_quantity (getData m pid) + quantityOr0 e\<bar> < 2 ^ 53"
        using cur bound by (auto simp: safeData_def)
      have ar: "js_add (Fin (d_revenue (getData m pid))) (Fin (e_amount e)) =
            Fin (d_revenue (getData m pid) + e_amount e)"
        using cur ints(1) r by (intro js_add_integers(1)) (simp_all add: safeData_def)
      have ac: "js_add (Fin (d_totalCost (getData m pid))) (Fin (e_amount e)) =
            Fin (d_totalCost (getData m pid) + e_amount e)"
        using cur ints(1) c by (intro js_add_integers(1)) (simp_all add: safeData_def)
      have aq: "js_add (Fin (d_quantity (getData m pid))) (Fin (quantityOr0 e)) =
            Fin (d_quantity (getData m pid) + quantityOr0 e)"
        using cur ints(2) q by (intro js_add_integers(1)) (simp_all add: safeData_def)
      show ?thesis
        using Some False
        by (auto simp: aggregateEntry64_def aggregateEntry_def Let_def g toData64_def
              ar[unfolded js_add.simps] ac[unfolded js_add.simps] aq[unfolded js_add.simps]
              lift fun_eq_iff)
    qed
  qed
qed

lemma aggregate64_fold:
  assumes "m64 = map_option toData64 \<circ> m"
    and "\<forall>k d. m k = Some d \<longrightarrow> safeData Ba Bq d"
    and "0 \<le> Ba" "0 \<le> Bq"
    and "list_all (\<lambda>e. isInteger (e_amount e) \<and> isInteger (quantityOr0 e)) es"
    and "Ba + sum_list (map (\<lambda>e. \<bar>e_amount e\<bar>) es) < 2 ^ 53"
    and "Bq + sum_list (map (\<lambda>e. \<bar>quantityOr0 e\<bar>) es) < 2 ^ 53"
  shows "fold aggregateEntry64 es m64 = map_option toData64 \<circ> fold aggregateEntry es m"
  using assms
proof (induction es arbitrary: m m64 Ba Bq)
  case Nil
  then show ?case by simp
next
  case (Cons e es)
  have nn: "0 \<le> sum_list (map (\<lambda>e. \<bar>e_amount e\<bar>) es)"
    "0 \<le> sum_list (map (\<lambda>e. \<bar>quantityOr0 e\<bar>) es)"
    by (auto intro!: sum_list_nonneg)
  have ints: "isInteger (e_amount e)" "isInteger (quantityOr0 e)"
    using Cons.prems(5) by simp_all
  have bound: "Ba + \<bar>e_amount e\<bar> < 2 ^ 53" "Bq + \<bar>quantityOr0 e\<bar> < 2 ^ 53"
    using Cons.prems(6,7) nn by simp_all
  note step = aggregateEntry64_step[OF Cons.prems(1,2,3,4) ints bound]
  have "fold aggregateEntry64 es (aggregateEntry64 e m64) =
        map_option toData64 \<circ> fold aggregateEntry es (aggregateEntry e m)"
  proof (rule Cons.IH[OF step])
    show "0 \<le> Ba + \<bar>e_amount e\<bar>" "0 \<le> Bq + \<bar>quantityOr0 e\<bar>"
      using Cons.prems(3,4) by simp_all
    show "list_all (\<lambda>e. isInteger (e_amount e) \<and> isInteger (quantityOr0 e)) es"
      using Cons.prems(5) by simp
    show "Ba + \<bar>e_amount e\<bar> + sum_list (map (\<lambda>e. \<bar>e_amount e\<bar>) es) < 2 ^ 53"
      using Cons.prems(6) by (simp add: add.assoc)
    show "Bq + \<bar>quantityOr0 e\<bar> + sum_list (map (\<lambda>e. \<bar>quantityOr0 e\<bar>) es) < 2 ^ 53"
      using Cons.prems(7) by (simp add: add.assoc)
  qed
  then show ?case by simp
qed

lemma aggregate64_exact:
  assumes "safeEntries es"
  shows "aggregate64 es = map_option toData64 \<circ> aggregate es"
  unfolding aggregate64_def aggregate_def
  by (rule aggregate64_fold[where Ba = 0 and Bq = 0])
     (use assms in \<open>simp_all add: safeEntries_def fun_eq_iff\<close>)

lemma safeEntries_permutation:
  assumes "mset es = mset es'"
  shows "safeEntries es = safeEntries es'"
proof -
  have "set es = set es'" using assms by (rule mset_eq_setD)
  moreover have "sum_list (map f es) = sum_list (map f es')" for f :: "DailyEntry \<Rightarrow> rat"
    using assms by (metis mset_map sum_mset_sum_list)
  ultimately show ?thesis
    by (simp add: safeEntries_def list_all_iff)
qed

lemma bitlen_eqI:
  assumes "0 < x" and "0 < k" and "2 ^ nat (k - 1) \<le> x" and "x < 2 ^ nat k"
  shows "bitlen x = k"
proof -
  from bitlen_bounds[OF assms(1)]
  have b: "2 ^ nat (bitlen x - 1) \<le> x" "x < 2 ^ nat (bitlen x)" by simp_all
  have "(2::int) ^ nat (k - 1) < 2 ^ nat (bitlen x)"
    using assms(3) b(2) by (rule le_less_trans)
  then have 1: "nat (k - 1) < nat (bitlen x)" by (rule power_less_imp_less_exp[rotated]) simp
  have "(2::int) ^ nat (bitlen x - 1) < 2 ^ nat k"
    using b(1) assms(4) by (rule le_less_trans)
  then have 2: "nat (bitlen x - 1) < nat k" by (rule power_less_imp_less_exp[rotated]) simp
  from 1 2 assms(2) show ?thesis by linarith
qed

lemma roundTiesToEven_eval:
  assumes "of_int f \<le> y" and "y < of_int f + 1"
  shows "roundTiesToEven y =
     (if y - of_int f < 1 / 2 then f
      else if 1 / 2 < y - of_int f then f + 1
      else if even f then f else f + 1)"
proof -
  have "\<lfloor>y\<rfloor> = f" using assms by (rule floor_unique)
  then show ?thesis by (simp add: roundTiesToEven_def Let_def)
qed

lemma round64_eval:
  assumes "x \<noteq> 0" and "ilog2 \<bar>x\<bar> = e" and "- 1022 \<le> e"
    and "roundTiesToEven (x / pow2 (e - 52)) = z"
    and "\<bar>of_int z * pow2 (e - 52)\<bar> < pow2 1024"
  shows "round64 x = Fin (of_int z * pow2 (e - 52))"
  using assms by (simp add: round64_def Let_def max_def not_le)

lemma ilog2_eval_ge1:
  assumes "1 \<le> x" and "of_int n \<le> x" and "x < of_int n + 1" and "bitlen n = e + 1"
  shows "ilog2 x = e"
proof -
  have "\<lfloor>x\<rfloor> = n" using assms(2,3) by (rule floor_unique)
  with assms(1,4) show ?thesis by (simp add: ilog2_def)
qed

lemma pow2_1024: "pow2 1024 = 2 ^ 1024"
  by (simp add: pow2_def)

lemma round64_two_53: "round64 9007199254740992 = Fin 9007199254740992"
proof -
  have i: "ilog2 \<bar>9007199254740992\<bar> = 53"
    by (rule ilog2_eval_ge1[where n = 9007199254740992]) (simp_all add: bitlen_eqI)
  have t: "roundTiesToEven (9007199254740992 / pow2 (53 - 52)) = 4503599627370496"
    using roundTiesToEven_eval[of 4503599627370496 "9007199254740992 / 2"]
    by (simp add: pow2_def)
  have "round64 9007199254740992 = Fin (of_int 4503599627370496 * pow2 (53 - 52))"
    by (rule round64_eval[OF _ i _ t]) (simp_all add: pow2_def)
  then show ?thesis by (simp add: pow2_def)
qed

lemma round64_two_53_plus_1: "round64 9007199254740993 = Fin 9007199254740992"
proof -
  have i: "ilog2 \<bar>9007199254740993\<bar> = 53"
    by (rule ilog2_eval_ge1[where n = 9007199254740993]) (simp_all add: bitlen_eqI)
  have t: "roundTiesToEven (9007199254740993 / pow2 (53 - 52)) = 4503599627370496"
    using roundTiesToEven_eval[of 4503599627370496 "9007199254740993 / 2"]
    by (simp add: pow2_def)
  have "round64 9007199254740993 = Fin (of_int 4503599627370496 * pow2 (53 - 52))"
    by (rule round64_eval[OF _ i _ t]) (simp_all add: pow2_def)
  then show ?thesis by (simp add: pow2_def)
qed

lemma round64_two_53_plus_2: "round64 9007199254740994 = Fin 9007199254740994"
proof -
  have i: "ilog2 \<bar>9007199254740994\<bar> = 53"
    by (rule ilog2_eval_ge1[where n = 9007199254740994]) (simp_all add: bitlen_eqI)
  have t: "roundTiesToEven (9007199254740994 / pow2 (53 - 52)) = 4503599627370497"
    using roundTiesToEven_eval[of 4503599627370497 "9007199254740994 / 2"]
    by (simp add: pow2_def)
  have "round64 9007199254740994 = Fin (of_int 4503599627370497 * pow2 (53 - 52))"
    by (rule round64_eval[OF _ i _ t]) (simp_all add: pow2_def)
  then show ?thesis by (simp add: pow2_def)
qed

lemma round64_small:
  "round64 1 = Fin 1" "round64 2 = Fin 2" "round64 3 = Fin 3"
  using round64_of_int[of 1] round64_of_int[of 2] round64_of_int[of 3] by simp_all

lemma ilog2_eval_lt1:
  assumes "0 < x" and "x < 1" and "of_int n < 1 / x" and "1 / x \<le> of_int n + 1"
    and "bitlen n = k"
  shows "ilog2 x = - k"
proof -
  have "\<lceil>1 / x\<rceil> = n + 1" using assms(3,4) by (intro ceiling_unique) simp_all
  with assms(2,5) show ?thesis by (simp add: ilog2_def)
qed

lemma round64_lt1:
  assumes "0 < x" and "x < 1" and "of_int n < 1 / x" and "1 / x \<le> of_int n + 1"
    and "bitlen n = k" and "k \<le> 1022"
    and "of_int f \<le> x / pow2 (- k - 52)" and "x / pow2 (- k - 52) < of_int f + 1"
    and "z = (if x / pow2 (- k - 52) - of_int f < 1 / 2 then f
              else if 1 / 2 < x / pow2 (- k - 52) - of_int f then f + 1
              else if even f then f else f + 1)"
    and "\<bar>of_int z * pow2 (- k - 52)\<bar> < pow2 1024"
    and "y = of_int z * pow2 (- k - 52)"
  shows "round64 x = Fin y"
proof -
  have i: "ilog2 \<bar>x\<bar> = - k"
    using assms(1) ilog2_eval_lt1[OF assms(1-5)] by simp
  have t: "roundTiesToEven (x / pow2 (- k - 52)) = z"
    using roundTiesToEven_eval[OF assms(7,8)] assms(9) by simp
  show ?thesis
    unfolding assms(11)
    by (rule round64_eval[OF _ i _ t]) (use assms in simp_all)
qed

lemma round64_decimal:
  "round64 (3602879701896397 / 36028797018963968) =
     Fin (3602879701896397 / 36028797018963968)"
  "round64 (10808639105689191 / 36028797018963968) =
     Fin (1351079888211149 / 4503599627370496)"
  "round64 (10808639105689191 / 18014398509481984) =
     Fin (1351079888211149 / 2251799813685248)"
  "round64 (5404319552844595 / 18014398509481984) =
     Fin (5404319552844595 / 18014398509481984)"
  "round64 (1 / 2) = Fin (1 / 2)"
  "round64 (21617278211378381 / 36028797018963968) =
     Fin (5404319552844595 / 9007199254740992)"
proof -
  show "round64 (3602879701896397 / 36028797018963968) =
     Fin (3602879701896397 / 36028797018963968)"
    by (rule round64_lt1[where n = 9 and k = 4 and f = 7205759403792794
          and z = 7205759403792794])
       (simp_all add: pow2_def bitlen_eqI)
  show "round64 (10808639105689191 / 36028797018963968) =
     Fin (1351079888211149 / 4503599627370496)"
    by (rule round64_lt1[where n = 3 and k = 2 and f = 5404319552844595
          and z = 5404319552844596])
       (simp_all add: pow2_def bitlen_eqI)
  show "round64 (10808639105689191 / 18014398509481984) =
     Fin (1351079888211149 / 2251799813685248)"
    by (rule round64_lt1[where n = 1 and k = 1 and f = 5404319552844595
          and z = 5404319552844596])
       (simp_all add: pow2_def bitlen_eqI)
  show "round64 (5404319552844595 / 18014398509481984) =
     Fin (5404319552844595 / 18014398509481984)"
    by (rule round64_lt1[where n = 3 and k = 2 and f = 5404319552844595
          and z = 5404319552844595])
       (simp_all add: pow2_def bitlen_eqI)
  show "round64 (1 / 2) = Fin (1 / 2)"
    by (rule round64_lt1[where n = 1 and k = 1 and f = 4503599627370496
          and z = 4503599627370496])
       (simp_all add: pow2_def bitlen_eqI)
  show "round64 (21617278211378381 / 36028797018963968) =
     Fin (5404319552844595 / 9007199254740992)"
    by (rule round64_lt1[where n = 1 and k = 1 and f = 5404319552844595
          and z = 5404319552844595])
       (simp_all add: pow2_def bitlen_eqI)
qed

lemma decimal_amounts:
  "round64 (1 / 10) = Fin (3602879701896397 / 36028797018963968)"
  "round64 (2 / 10) = Fin (3602879701896397 / 18014398509481984)"
  "round64 (3 / 10) = Fin (5404319552844595 / 18014398509481984)"
proof -
  show "round64 (1 / 10) = Fin (3602879701896397 / 36028797018963968)"
    by (rule round64_lt1[where n = 9 and k = 4 and f = 7205759403792793
          and z = 7205759403792794])
       (simp_all add: pow2_def bitlen_eqI)
  have "round64 (1 / 5) = Fin (3602879701896397 / 18014398509481984)"
    by (rule round64_lt1[where n = 4 and k = 3 and f = 7205759403792793
          and z = 7205759403792794])
       (simp_all add: pow2_def bitlen_eqI)
  then show "round64 (2 / 10) = Fin (3602879701896397 / 18014398509481984)"
    by simp
  show "round64 (3 / 10) = Fin (5404319552844595 / 18014398509481984)"
    by (rule round64_lt1[where n = 3 and k = 2 and f = 5404319552844595
          and z = 5404319552844595])
       (simp_all add: pow2_def bitlen_eqI)
qed

lemma aggregate64_roundingEntries:
  "f_revenue (getData64 (aggregate64 roundingEntries) ''p1'') = Fin 9007199254740992"
  "f_revenue (getData64 (aggregate64 (rev roundingEntries)) ''p1'') = Fin 9007199254740994"
  by (simp_all add: aggregate64_def roundingEntries_def aggregateEntry64_def getData64_def
        noData64_def quantityOr0_def round64_two_53 round64_two_53_plus_1 round64_two_53_plus_2 round64_small)

lemma aggregate64_decimalEntries:
  "f_revenue (getData64 (aggregate64 decimalEntries) ''p1'') =
     Fin (1351079888211149 / 2251799813685248)"
  "f_revenue (getData64 (aggregate64 (rev decimalEntries)) ''p1'') =
     Fin (5404319552844595 / 9007199254740992)"
  by (simp_all add: aggregate64_def decimalEntries_def aggregateEntry64_def getData64_def
        noData64_def quantityOr0_def round64_decimal round64_small)

subsection \<open>Sorting and ranking\<close>

lemma stableSortDesc_sorted: "sorted (rev (map key (stableSortDesc key xs)))"
proof -
  have "sorted (map (\<lambda>x. - key x) (stableSortDesc key xs))"
    by (simp add: stableSortDesc_def)
  then have "sorted (map uminus (map key (stableSortDesc key xs)))"
    by (simp add: comp_def)
  then show ?thesis
    by (simp add: sorted_wrt_rev sorted_map sorted_wrt_map)
qed

lemma stableSortDesc_mset: "mset (stableSortDesc key xs) = mset xs"
  by (simp add: stableSortDesc_def)

lemma stableSortDesc_stable:
  "filter (\<lambda>x. key x = k) (stableSortDesc key xs) = filter (\<lambda>x. key x = k) xs"
  using sort_key_stable[of "\<lambda>x. - key x" "- k" xs] by (simp add: stableSortDesc_def)

lemma insertBy_desc:
  "insertBy (\<lambda>a b. key b - key a) x ys = insort_key (\<lambda>a. - key a) x ys"
  by (induction ys) simp_all

lemma sortBy_desc: "sortBy (\<lambda>a b. key b - key a) xs = stableSortDesc key xs"
  by (induction xs) (simp_all add: sortBy_def stableSortDesc_def insertBy_desc)

lemma insort_key_map:
  "insort_key f (g x) (map g xs) = map g (insort_key (\<lambda>a. f (g a)) x xs)"
  by (induction xs) simp_all

lemma sort_key_map: "sort_key f (map g xs) = map g (sort_key (\<lambda>a. f (g a)) xs)"
  by (induction xs) (simp_all add: insort_key_map)

lemma insort_key_cong_set:
  "f x = g x \<Longrightarrow> (\<And>y. y \<in> set ys \<Longrightarrow> f y = g y) \<Longrightarrow> insort_key f x ys = insort_key g x ys"
  by (induction ys) simp_all

lemma sort_key_cong_set:
  "(\<And>x. x \<in> set xs \<Longrightarrow> f x = g x) \<Longrightarrow> sort_key f xs = sort_key g xs"
proof (induction xs)
  case Nil
  then show ?case by simp
next
  case (Cons x xs)
  then have "sort_key f xs = sort_key g xs" by simp
  moreover have "insort_key f x (sort_key g xs) = insort_key g x (sort_key g xs)"
    using Cons.prems by (intro insort_key_cong_set) simp_all
  ultimately show ?case by simp
qed

lemma length_writeRanks_aux:
  "length (fold (\<lambda>(i, a) st. st[a := setRank (i + 1) (st ! a)]) ias store) = length store"
  by (induction ias arbitrary: store) (simp_all add: case_prod_beta)

lemma length_writeRanks [simp]: "length (writeRanks setRank order store) = length store"
  unfolding writeRanks_def by (rule length_writeRanks_aux)

lemma map_writeRanks_aux:
  assumes "\<And>r p. f (setRank r p) = f p"
  shows "map f (fold (\<lambda>(i, a) st. st[a := setRank (i + 1) (st ! a)]) ias store) = map f store"
proof (induction ias arbitrary: store)
  case Nil
  then show ?case by simp
next
  case (Cons ia ias)
  obtain i a where ia: "ia = (i, a)" by (cases ia)
  have "map f (store[a := setRank (i + 1) (store ! a)]) = map f store"
    by (simp add: map_update assms list_update_same_conv)
       (metis length_map list_update_beyond list_update_id nth_map not_le_imp_less)
  with Cons ia show ?case by simp
qed

lemma map_writeRanks:
  "(\<And>r p. f (setRank r p) = f p) \<Longrightarrow> map f (writeRanks setRank order store) = map f store"
  unfolding writeRanks_def by (rule map_writeRanks_aux)

lemma nth_writeRanks_aux:
  assumes "distinct order" and "\<forall>a\<in>set order. a < length store"
  shows "(\<forall>i<length order.
            fold (\<lambda>(i, a) st. st[a := setRank (i + 1) (st ! a)]) (enumerate k order) store
              ! (order ! i) = setRank (k + i + 1) (store ! (order ! i))) \<and>
         (\<forall>a. a \<notin> set order \<longrightarrow>
            fold (\<lambda>(i, a) st. st[a := setRank (i + 1) (st ! a)]) (enumerate k order) store ! a
              = store ! a)"
  using assms
proof (induction order arbitrary: k store)
  case Nil
  then show ?case by simp
next
  case (Cons a order)
  let ?st = "store[a := setRank (k + 1) (store ! a)]"
  have d: "distinct order" and na: "a \<notin> set order" and al: "a < length store"
    and b: "\<forall>b\<in>set order. b < length ?st"
    using Cons.prems by simp_all
  note ih = Cons.IH[OF d b, of "Suc k"]
  show ?case
  proof (intro conjI allI impI)
    fix i assume "i < length (a # order)"
    show "fold (\<lambda>(i, a) st. st[a := setRank (i + 1) (st ! a)]) (enumerate k (a # order)) store
            ! ((a # order) ! i) = setRank (k + i + 1) (store ! ((a # order) ! i))"
    proof (cases i)
      case 0
      with ih na al show ?thesis by simp
    next
      case (Suc j)
      with \<open>i < length (a # order)\<close> have j: "j < length order" by simp
      then have "order ! j \<noteq> a" using na by (metis nth_mem)
      with ih j Suc show ?thesis by simp
    qed
  next
    fix b assume "b \<notin> set (a # order)"
    with ih show "fold (\<lambda>(i, a) st. st[a := setRank (i + 1) (st ! a)]) (enumerate k (a # order)) store ! b
            = store ! b" by simp
  qed
qed

lemma nth_writeRanks:
  "distinct order \<Longrightarrow> \<forall>a\<in>set order. a < length store \<Longrightarrow> i < length order \<Longrightarrow>
   writeRanks setRank order store ! (order ! i) = setRank (i + 1) (store ! (order ! i))"
  using nth_writeRanks_aux[of order store setRank 0] unfolding writeRanks_def by simp

lemma set_stableSortDesc [simp]: "set (stableSortDesc key xs) = set xs"
  by (simp add: stableSortDesc_def)

lemma distinct_stableSortDesc [simp]: "distinct (stableSortDesc key xs) = distinct xs"
  by (simp add: stableSortDesc_def)

lemma length_stableSortDesc [simp]: "length (stableSortDesc key xs) = length xs"
  by (simp add: stableSortDesc_def)

lemma stableSortDesc_nths:
  "stableSortDesc key xs =
     map (\<lambda>a. xs ! a) (stableSortDesc (\<lambda>a. key (xs ! a)) [0..<length xs])"
proof -
  have "stableSortDesc key (map (\<lambda>a. xs ! a) [0..<length xs]) =
        map (\<lambda>a. xs ! a) (stableSortDesc (\<lambda>a. key (xs ! a)) [0..<length xs])"
    unfolding stableSortDesc_def by (rule sort_key_map)
  then show ?thesis by (simp add: map_nth)
qed

lemma stableSortDesc_cong_set:
  "(\<And>x. x \<in> set xs \<Longrightarrow> key x = key' x) \<Longrightarrow> stableSortDesc key xs = stableSortDesc key' xs"
  unfolding stableSortDesc_def by (rule sort_key_cong_set) simp

text \<open>One ranking pass: sorting the store and writing the positions.\<close>

lemma rank_pass:
  assumes key: "\<And>r p. key (setRank r p) = key p"
    and get: "\<And>r p. getRank (setRank r p) = r"
  shows "map getRank
           (stableSortDesc key
              (writeRanks setRank
                 (sortBy (\<lambda>a b. key (st ! b) - key (st ! a)) [0..<length st]) st)) =
         [1..<Suc (length st)]"
proof -
  let ?ord = "stableSortDesc (\<lambda>a. key (st ! a)) [0..<length st]"
  let ?st' = "writeRanks setRank ?ord st"
  have ord: "sortBy (\<lambda>a b. key (st ! b) - key (st ! a)) [0..<length st] = ?ord"
    by (rule sortBy_desc)
  have keys: "map key ?st' = map key st"
    by (rule map_writeRanks) (rule key)
  have key_nth: "key (?st' ! a) = key (st ! a)" if "a < length st" for a
    using that arg_cong[OF keys, of "\<lambda>l. l ! a"] by simp
  have "stableSortDesc key ?st' =
        map (\<lambda>a. ?st' ! a) (stableSortDesc (\<lambda>a. key (?st' ! a)) [0..<length st])"
    using stableSortDesc_nths[of key ?st'] by simp
  also have "stableSortDesc (\<lambda>a. key (?st' ! a)) [0..<length st] = ?ord"
    by (rule stableSortDesc_cong_set) (simp add: key_nth)
  finally have "map getRank (stableSortDesc key ?st') = map (\<lambda>a. getRank (?st' ! a)) ?ord"
    by simp
  also have "\<dots> = [1..<Suc (length st)]"
  proof (rule nth_equalityI)
    show "length (map (\<lambda>a. getRank (?st' ! a)) ?ord) = length [1..<Suc (length st)]"
      by (simp del: upt_Suc)
  next
    fix i assume "i < length (map (\<lambda>a. getRank (?st' ! a)) ?ord)"
    then have i: "i < length ?ord" by simp
    have "?st' ! (?ord ! i) = setRank (i + 1) (st ! (?ord ! i))"
      by (rule nth_writeRanks) (use i in simp_all)
    with i show "map (\<lambda>a. getRank (?st' ! a)) ?ord ! i = [1..<Suc (length st)] ! i"
      using get by (simp del: upt_Suc)
  qed
  finally show ?thesis by (simp only: ord)
qed

text \<open>The ranks read along the sorted list depend on the keys and ranks only.\<close>

lemma ranks_along_sort:
  "map getRank (stableSortDesc key xs) =
   map snd (stableSortDesc fst (map (\<lambda>p. (key p, getRank p)) xs))"
  unfolding stableSortDesc_def by (simp add: sort_key_map)

lemma ranks_along_sort_cong:
  assumes "map key xs = map key ys" and "map getRank xs = map getRank ys"
  shows "map getRank (stableSortDesc key xs) = map getRank (stableSortDesc key ys)"
proof -
  have z: "map (\<lambda>p. (key p, getRank p)) zs = zip (map key zs) (map getRank zs)" for zs
    by (induction zs) simp_all
  have "map (\<lambda>p. (key p, getRank p)) xs = map (\<lambda>p. (key p, getRank p)) ys"
    by (simp only: z assms)
  then show ?thesis by (simp add: ranks_along_sort[of getRank key])
qed

lemma length_addRankings [simp]: "length (addRankings ps) = length ps"
  by (simp add: addRankings_def Let_def)

lemma map_addRankings:
  assumes "\<And>r p. f (p\<lparr>rankByRevenue := r\<rparr>) = f p"
    and "\<And>r p. f (p\<lparr>rankByProfit := r\<rparr>) = f p"
    and "\<And>r p. f (p\<lparr>rankByEfficiency := r\<rparr>) = f p"
  shows "map f (addRankings ps) = map f ps"
  by (simp add: addRankings_def Let_def map_writeRanks assms)

lemma addRankings_rankByRevenue:
  "map rankByRevenue (stableSortDesc totalRevenue (addRankings ps)) = [1..<Suc (length ps)]"
proof -
  let ?st1 = "writeRanks (\<lambda>r p. p\<lparr>rankByRevenue := r\<rparr>)
      (sortBy (\<lambda>a b. totalRevenue (ps ! b) - totalRevenue (ps ! a)) [0..<length ps]) ps"
  have "map totalRevenue (addRankings ps) = map totalRevenue ?st1"
    by (simp add: addRankings_def Let_def map_writeRanks)
  moreover have "map rankByRevenue (addRankings ps) = map rankByRevenue ?st1"
    by (simp add: addRankings_def Let_def map_writeRanks)
  ultimately have "map rankByRevenue (stableSortDesc totalRevenue (addRankings ps)) =
      map rankByRevenue (stableSortDesc totalRevenue ?st1)"
    by (rule ranks_along_sort_cong)
  also have "\<dots> = [1..<Suc (length ps)]"
    by (rule rank_pass) simp_all
  finally show ?thesis .
qed

lemma addRankings_rankByProfit:
  "map rankByProfit (stableSortDesc estimatedProfit (addRankings ps)) = [1..<Suc (length ps)]"
proof -
  let ?st1 = "writeRanks (\<lambda>r p. p\<lparr>rankByRevenue := r\<rparr>)
      (sortBy (\<lambda>a b. totalRevenue (ps ! b) - totalRevenue (ps ! a)) [0..<length ps]) ps"
  let ?st2 = "writeRanks (\<lambda>r p. p\<lparr>rankByProfit := r\<rparr>)
      (sortBy (\<lambda>a b. estimatedProfit (?st1 ! b) - estimatedProfit (?st1 ! a))
         [0..<length ?st1]) ?st1"
  have "map estimatedProfit (addRankings ps) = map estimatedProfit ?st2"
    by (simp add: addRankings_def Let_def map_writeRanks)
  moreover have "map rankByProfit (addRankings ps) = map rankByProfit ?st2"
    by (simp add: addRankings_def Let_def map_writeRanks)
  ultimately have "map rankByProfit (stableSortDesc estimatedProfit (addRankings ps)) =
      map rankByProfit (stableSortDesc estimatedProfit ?st2)"
    by (rule ranks_along_sort_cong)
  also have "\<dots> = [1..<Suc (length ?st1)]"
    by (rule rank_pass) simp_all
  finally show ?thesis by simp
qed

lemma addRankings_rankByEfficiency:
  "map rankByEfficiency (stableSortDesc stockEfficiency (addRankings ps)) =
   [1..<Suc (length ps)]"
proof -
  let ?st1 = "writeRanks (\<lambda>r p. p\<lparr>rankByRevenue := r\<rparr>)
      (sortBy (\<lambda>a b. totalRevenue (ps ! b) - totalRevenue (ps ! a)) [0..<length ps]) ps"
  let ?st2 = "writeRanks (\<lambda>r p. p\<lparr>rankByProfit := r\<rparr>)
      (sortBy (\<lambda>a b. estimatedProfit (?st1 ! b) - estimatedProfit (?st1 ! a))
         [0..<length ps]) ?st1"
  let ?st3 = "writeRanks (\<lambda>r p. p\<lparr>rankByEfficiency := r\<rparr>)
      (sortBy (\<lambda>a b. stockEfficiency (?st2 ! b) - stockEfficiency (?st2 ! a))
         [0..<length ?st2]) ?st2"
  have "addRankings ps = ?st3"
    by (simp add: addRankings_def Let_def)
  moreover have "map rankByEfficiency (stableSortDesc stockEfficiency ?st3) =
      [1..<Suc (length ?st2)]"
    by (rule rank_pass) simp_all
  ultimately show ?thesis by simp
qed

subsection \<open>The engine and its summary\<close>

lemma unitsSold_productMetrics:
  "unitsSold (productMetrics m days item) = d_quantity (getData m (s_id item))"
  by (simp add: productMetrics_def Let_def)

lemma active_products:
  "filter (\<lambda>p. unitsSold p > 0) (map (productMetrics m days) items) =
   map (productMetrics m days) (filter (\<lambda>item. 0 < d_quantity (getData m (s_id item))) items)"
  by (simp add: filter_map comp_def unitsSold_productMetrics)

lemma products_calculateProductPerformance:
  "products (calculateProductPerformance props) =
   addRankings
     (map (productMetrics (aggregate (entries props))
             (case daysToAnalyze props of None \<Rightarrow> 30 | Some d \<Rightarrow> d))
        (filter (\<lambda>item. 0 < d_quantity (getData (aggregate (entries props)) (s_id item)))
           (stockItems props)))"
  by (simp add: calculateProductPerformance_def Let_def active_products)

lemma summary_calculateProductPerformance:
  "summary (calculateProductPerformance props) =
   calculateSummary (products (calculateProductPerformance props))"
  by (simp add: calculateProductPerformance_def Let_def)

lemma foldl_add_sum_list: "foldl (\<lambda>s p. s + f p) a ps = a + sum_list (map f ps)"
  for a :: rat
  by (induction ps arbitrary: a) simp_all

lemma sum_totalRevenue_calculateSummary:
  "sum_totalRevenue (calculateSummary ps) = sum_list (map totalRevenue ps)"
  by (simp add: calculateSummary_def Let_def foldl_add_sum_list)

lemma sum_totalProfit_calculateSummary:
  "sum_totalProfit (calculateSummary ps) = sum_list (map estimatedProfit ps)"
  by (simp add: calculateSummary_def Let_def foldl_add_sum_list)

lemma totalProductsAnalyzed_calculateSummary:
  "totalProductsAnalyzed (calculateSummary ps) = length ps"
  by (simp add: calculateSummary_def Let_def)

lemma mset_ranks:
  assumes "map getRank (stableSortDesc key rs) = [1..<Suc (length rs)]"
  shows "mset (map getRank rs) = mset [1..<Suc (length rs)]"
proof -
  have "mset (map getRank rs) = image_mset getRank (mset (stableSortDesc key rs))"
    by (simp add: stableSortDesc_mset)
  also have "\<dots> = mset (map getRank (stableSortDesc key rs))" by simp
  finally show ?thesis by (simp only: assms)
qed

lemma aggregate_scenarioA:
  "getData (aggregate (entries scenarioA)) ''p1'' = \<lparr>d_revenue = 100000, d_quantity = 10, d_totalCost = 50000\<rparr>"
  "getData (aggregate (entries scenarioA)) ''p2'' = noData"
  by (simp_all add: getData_aggregate spec_aggregate_def scenarioA_def noData_def quantityOr0_def)

lemma realizedProfit_addRankings:
  "map realizedProfit (addRankings ps) = map realizedProfit ps"
  by (rule map_addRankings) simp_all

lemma estimatedProfit_addRankings:
  "map estimatedProfit (addRankings ps) = map estimatedProfit ps"
  by (rule map_addRankings) simp_all

lemma estimatedProfit_products:
  assumes "p \<in> set (products (calculateProductPerformance props))"
  shows "estimatedProfit p = realizedProfit p"
proof -
  let ?ps = "map (productMetrics (aggregate (entries props))
             (case daysToAnalyze props of None \<Rightarrow> 30 | Some d \<Rightarrow> d))
        (filter (\<lambda>item. 0 < d_quantity (getData (aggregate (entries props)) (s_id item)))
           (stockItems props))"
  have "map (\<lambda>p. estimatedProfit p = realizedProfit p) (addRankings ?ps) =
        map (\<lambda>p. estimatedProfit p = realizedProfit p) ?ps"
    by (rule map_addRankings) simp_all
  also have "\<dots> = map (\<lambda>_. True) ?ps"
    by (simp add: productMetrics_def Let_def)
  finally have "set (map (\<lambda>p. estimatedProfit p = realizedProfit p)
      (products (calculateProductPerformance props))) \<subseteq> {True}"
    by (auto simp: products_calculateProductPerformance)
  with assms show ?thesis by auto
qed

lemma spec_aggregate_filter:
  assumes "\<And>e. e \<in> set es \<Longrightarrow> e_productId e = Some k \<Longrightarrow> keep e"
  shows "spec_aggregate (filter keep es) k = spec_aggregate es k"
proof -
  have "filter (\<lambda>e. e_productId e = Some k \<and> P e) (filter keep es) =
        filter (\<lambda>e. e_productId e = Some k \<and> P e) es" for P
    using assms by (auto intro: filter_cong)
  then show ?thesis by (simp add: spec_aggregate_def)
qed

lemma getData_aggregate_filter:
  assumes "\<And>e. e \<in> set es \<Longrightarrow> e_productId e = Some k \<Longrightarrow> keep e"
  shows "getData (aggregate (filter keep es)) k = getData (aggregate es) k"
proof (cases "k = []")
  case True
  then show ?thesis by (simp add: getData_aggregate_empty_key)
next
  case False
  then show ?thesis
    using assms by (simp add: getData_aggregate spec_aggregate_filter)
qed

lemma productMetrics_cong:
  "getData m (s_id item) = getData m' (s_id item) \<Longrightarrow>
   productMetrics m days item = productMetrics m' days item"
  by (simp add: productMetrics_def)

subsection \<open>Score and stock runway\<close>

lemma calculateScore_integer: "calculateScore a b c d e f \<in> \<int>"
  by (simp add: calculateScore_def Math_round_def Let_def)

lemma calculateScore_zero: "calculateScore 0 0 0 0 0 0 = 0"
  by (simp add: calculateScore_def Math_round_def floor_unique)

lemma calculateScore_maximum: "calculateScore 100000 50000 100 2 100 100 = 110"
  unfolding calculateScore_def Math_round_def Let_def
  by (simp add: floor_unique)

lemma calculateScore_scenarioA: "calculateScore 100000 50000 100 2 50 100 = 103"
  unfolding calculateScore_def Math_round_def Let_def
  by (simp add: floor_unique)

lemma Math_round_bounds:
  assumes "0 \<le> s" and "s \<le> 110"
  shows "0 \<le> Math_round s \<and> Math_round s \<le> 110"
proof -
  have "0 \<le> \<lfloor>s + 1 / 2\<rfloor>"
    using assms(1) by (simp add: le_floor_iff)
  moreover have "\<lfloor>s + 1 / 2\<rfloor> \<le> 110"
    using assms(2) by (simp add: floor_le_iff)
  ultimately have "(of_int 0 :: rat) \<le> of_int \<lfloor>s + 1 / 2\<rfloor>"
    and "(of_int \<lfloor>s + 1 / 2\<rfloor> :: rat) \<le> of_int 110"
    by (simp_all only: of_int_le_iff)
  then show ?thesis
    by (simp add: Math_round_def)
qed

lemma calculateScore_bounds:
  assumes "0 \<le> a" "0 \<le> b" "0 \<le> c" "0 \<le> d" "0 \<le> e" "0 \<le> f"
  shows "0 \<le> calculateScore a b c d e f \<and> calculateScore a b c d e f \<le> 110"
proof -
  have 1: "0 \<le> min ((a / 100000) * 100) 100 * (2 / 10)" "min ((a / 100000) * 100) 100 * (2 / 10) \<le> 20"
    using assms by (simp_all add: min_def)
  have 2: "0 \<le> min ((b / 50000) * 100) 100 * (3 / 10)" "min ((b / 50000) * 100) 100 * (3 / 10) \<le> 30"
    using assms by (simp_all add: min_def)
  have 3: "0 \<le> min c 100 * (2 / 10)" "min c 100 * (2 / 10) \<le> 20"
    using assms by (simp_all add: min_def)
  have 4: "0 \<le> min (d * 50) 100 * (15 / 100)" "min (d * 50) 100 * (15 / 100) \<le> 15"
    using assms by (simp_all add: min_def)
  have 5: "0 \<le> min e 100 * (15 / 100)" "min e 100 * (15 / 100) \<le> 15"
    using assms by (simp_all add: min_def)
  have 6: "0 \<le> min f 100 * (1 / 10)" "min f 100 * (1 / 10) \<le> 10"
    using assms by (simp_all add: min_def)
  show ?thesis
    unfolding calculateScore_def Let_def
    by (rule Math_round_bounds) (use 1 2 3 4 5 6 in linarith)+
qed

lemma runway_without_sales:
  "d_quantity (getData m (s_id item)) = 0 \<Longrightarrow> daysOfStockLeft (productMetrics m days item) = PInf"
  by (simp add: productMetrics_def Let_def js_div_def js_gt0_def)

lemma runway_zero_window:
  "0 < d_quantity (getData m (s_id item)) \<Longrightarrow>
   daysOfStockLeft (productMetrics m 0 item) = Fin 0"
  by (simp add: productMetrics_def Let_def js_div_def js_gt0_def js_div_by_def)

lemma runway_positive_window:
  "0 < d_quantity (getData m (s_id item)) \<Longrightarrow> 0 < days \<Longrightarrow>
   daysOfStockLeft (productMetrics m days item) =
     Fin (s_quantity item / (d_quantity (getData m (s_id item)) / days))"
  by (simp add: productMetrics_def Let_def js_div_def js_gt0_def js_div_by_def)

lemma map_products:
  assumes "\<And>r p. f (p\<lparr>rankByRevenue := r\<rparr>) = f p"
    and "\<And>r p. f (p\<lparr>rankByProfit := r\<rparr>) = f p"
    and "\<And>r p. f (p\<lparr>rankByEfficiency := r\<rparr>) = f p"
  shows "map f (products (calculateProductPerformance props)) =
     map (\<lambda>item. f (productMetrics (aggregate (entries props))
             (case daysToAnalyze props of None \<Rightarrow> 30 | Some d \<Rightarrow> d) item))
        (filter (\<lambda>item. 0 < d_quantity (getData (aggregate (entries props)) (s_id item)))
           (stockItems props))"
  unfolding products_calculateProductPerformance
  by (simp add: map_addRankings[of f, OF assms] comp_def)

lemma aggregate_zeroWindow:
  "getData (aggregate (entries zeroWindow)) ''p1'' =
     \<lparr>d_revenue = 1000, d_quantity = 2, d_totalCost = 0\<rparr>"
  by (simp add: getData_aggregate spec_aggregate_def zeroWindow_def quantityOr0_def)

lemma aggregate_tieScenario:
  "getData (aggregate (entries tieScenario)) ''p1'' =
     \<lparr>d_revenue = 100, d_quantity = 1, d_totalCost = 0\<rparr>"
  "getData (aggregate (entries tieScenario)) ''p2'' =
     \<lparr>d_revenue = 200, d_quantity = 1, d_totalCost = 0\<rparr>"
  "getData (aggregate (entries tieScenario)) ''p3'' =
     \<lparr>d_revenue = 100, d_quantity = 4, d_totalCost = 300\<rparr>"
  by (simp_all add: getData_aggregate spec_aggregate_def tieScenario_def quantityOr0_def)

lemma tieScenario_fields:
  "stockItems tieScenario =
        [\<lparr>s_id = ''p1'', s_name = ''A'', s_quantity = 1, s_totalSold = 1\<rparr>,
         \<lparr>s_id = ''p2'', s_name = ''B'', s_quantity = 5, s_totalSold = 1\<rparr>,
         \<lparr>s_id = ''p3'', s_name = ''C'', s_quantity = 4, s_totalSold = 4\<rparr>]"
  "daysToAnalyze tieScenario = None"
  by (simp_all add: tieScenario_def)

section \<open>Properties\<close>

text \<open>
  C1. The returned products are, in the order of the stock items, the metrics records of
  exactly the stock items whose computed \<open>unitsSold\<close> is greater than 0 (the records
  differ from them in the three rank fields only). A stock item with \<open>unitsSold = 0\<close>
  yields no record; the three rankings number the sold products only, and the summary
  totals (revenue, profit, number of products) are those of the sold products.
\<close>

theorem report_contains_exactly_sold_products:
  fixes props :: PerformanceCalculatorProps
  defines "r \<equiv> calculateProductPerformance props"
    and "m \<equiv> aggregate (entries props)"
    and "days \<equiv> (case daysToAnalyze props of None \<Rightarrow> 30 | Some d \<Rightarrow> d)"
  defines "sold \<equiv> filter (\<lambda>item. 0 < unitsSold (productMetrics m days item)) (stockItems props)"
  shows "map (\<lambda>p. p\<lparr>rankByRevenue := 0, rankByProfit := 0, rankByEfficiency := 0\<rparr>) (products r) =
           map (productMetrics m days) sold
       \<and> list_all (\<lambda>p. 0 < unitsSold p) (products r)
       \<and> mset (map rankByRevenue (products r)) = mset [1..<Suc (length sold)]
       \<and> mset (map rankByProfit (products r)) = mset [1..<Suc (length sold)]
       \<and> mset (map rankByEfficiency (products r)) = mset [1..<Suc (length sold)]
       \<and> sum_totalRevenue (summary r) = sum_list (map (\<lambda>item. totalRevenue (productMetrics m days item)) sold)
       \<and> sum_totalProfit (summary r) = sum_list (map (\<lambda>item. realizedProfit (productMetrics m days item)) sold)
       \<and> totalProductsAnalyzed (summary r) = length sold"
proof -
  let ?ps = "map (productMetrics m days) sold"
  have r: "products r = addRankings ?ps"
    unfolding r_def sold_def m_def days_def
    by (simp add: products_calculateProductPerformance unitsSold_productMetrics)
  have s: "summary r = calculateSummary (products r)"
    unfolding r_def by (rule summary_calculateProductPerformance)
  have len: "length (products r) = length sold" by (simp add: r)
  have 1: "map (\<lambda>p. p\<lparr>rankByRevenue := 0, rankByProfit := 0, rankByEfficiency := 0\<rparr>) (products r) =
      map (\<lambda>p. p\<lparr>rankByRevenue := 0, rankByProfit := 0, rankByEfficiency := 0\<rparr>) ?ps"
    unfolding r by (rule map_addRankings) simp_all
  have "map (\<lambda>p. p\<lparr>rankByRevenue := 0, rankByProfit := 0, rankByEfficiency := 0\<rparr>) ?ps = ?ps"
    by (simp add: productMetrics_def Let_def)
  with 1 have c1: "map (\<lambda>p. p\<lparr>rankByRevenue := 0, rankByProfit := 0, rankByEfficiency := 0\<rparr>) (products r) = ?ps"
    by simp
  have "map (\<lambda>p. 0 < unitsSold p) (products r) = map (\<lambda>p. 0 < unitsSold p) ?ps"
    unfolding r by (rule map_addRankings) simp_all
  also have "\<dots> = map (\<lambda>_. True) sold"
    by (simp add: sold_def)
  finally have "set (map (\<lambda>p. 0 < unitsSold p) (products r)) \<subseteq> {True}"
    by auto
  then have c2: "list_all (\<lambda>p. 0 < unitsSold p) (products r)"
    by (auto simp: list_all_iff)
  have c3: "mset (map rankByRevenue (products r)) = mset [1..<Suc (length sold)]"
    using mset_ranks[of rankByRevenue totalRevenue "products r"]
      addRankings_rankByRevenue[of ?ps] by (simp add: r del: upt_Suc)
  have c4: "mset (map rankByProfit (products r)) = mset [1..<Suc (length sold)]"
    using mset_ranks[of rankByProfit estimatedProfit "products r"]
      addRankings_rankByProfit[of ?ps] by (simp add: r del: upt_Suc)
  have c5: "mset (map rankByEfficiency (products r)) = mset [1..<Suc (length sold)]"
    using mset_ranks[of rankByEfficiency stockEfficiency "products r"]
      addRankings_rankByEfficiency[of ?ps] by (simp add: r del: upt_Suc)
  have "map totalRevenue (products r) = map totalRevenue ?ps"
    unfolding r by (rule map_addRankings) simp_all
  then have c6: "sum_totalRevenue (summary r) = sum_list (map (\<lambda>item. totalRevenue (productMetrics m days item)) sold)"
    by (simp add: s sum_totalRevenue_calculateSummary comp_def)
  have "map estimatedProfit (products r) = map estimatedProfit ?ps"
    unfolding r by (rule map_addRankings) simp_all
  also have "\<dots> = map (\<lambda>item. realizedProfit (productMetrics m days item)) sold"
    by (simp add: productMetrics_def Let_def)
  finally have c7: "sum_totalProfit (summary r) = sum_list (map (\<lambda>item. realizedProfit (productMetrics m days item)) sold)"
    by (simp add: s sum_totalProfit_calculateSummary)
  have c8: "totalProductsAnalyzed (summary r) = length sold"
    by (simp add: s totalProductsAnalyzed_calculateSummary len)
  from c1 c2 c3 c4 c5 c6 c7 c8 show ?thesis by blast
qed

theorem report_contains_exactly_sold_products_witness:
  "map productId (products (calculateProductPerformance scenarioA)) = [''p1''] \<and>
   totalProductsAnalyzed (summary (calculateProductPerformance scenarioA)) = 1"
proof -
  have sold: "filter (\<lambda>item. 0 < unitsSold (productMetrics (aggregate (entries scenarioA)) 30 item))
      (stockItems scenarioA) = [\<lparr>s_id = ''p1'', s_name = ''A'', s_quantity = 0, s_totalSold = 10\<rparr>]"
    by (simp add: unitsSold_productMetrics)
       (simp add: scenarioA_def getData_aggregate spec_aggregate_def quantityOr0_def)
  have days: "daysToAnalyze scenarioA = None" by (simp add: scenarioA_def)
  note t = report_contains_exactly_sold_products[of scenarioA, unfolded days option.case sold]
  from t have "map productId (map (\<lambda>p. p\<lparr>rankByRevenue := 0, rankByProfit := 0, rankByEfficiency := 0\<rparr>)
      (products (calculateProductPerformance scenarioA))) = [''p1'']"
    by (simp add: productMetrics_def Let_def)
  moreover from t have "totalProductsAnalyzed (summary (calculateProductPerformance scenarioA)) = 1"
    by simp
  ultimately show ?thesis by (simp add: comp_def)
qed

text \<open>
  C2. With \<open>currentStock = 0\<close> and \<open>realizationRate > 0\<close> the classifier returns
  COMPLETED\_PROFITABLE, COMPLETED\_BREAKEVEN or COMPLETED\_LOSS according to the sign of the
  realized profit, hence no IN\_PROGRESS category and not UNKNOWN, also for a realization
  rate of 100; this holds of the classifier and of the category of every computed record.
  For revenue 100000, cost 50000, quantity sold 10, quantity 0 and total sold 10 the
  realized profit is 50000, the margin 50, the realization rate 100 and the category
  COMPLETED\_PROFITABLE.
\<close>

theorem sold_out_classified_completed:
  "(cs = 0 \<and> 0 < rr \<longrightarrow>
      categorizePerformance ap pp rr cs =
        (if 0 < ap then ''COMPLETED_PROFITABLE''
         else if ap = 0 then ''COMPLETED_BREAKEVEN''
         else ''COMPLETED_LOSS''))
   \<and> (currentStock (productMetrics m days item) = 0 \<and>
        0 < realizationRate (productMetrics m days item) \<longrightarrow>
      performanceCategory (productMetrics m days item) =
        (if 0 < realizedProfit (productMetrics m days item) then ''COMPLETED_PROFITABLE''
         else if realizedProfit (productMetrics m days item) = 0 then ''COMPLETED_BREAKEVEN''
         else ''COMPLETED_LOSS''))
   \<and> (getData m (s_id item) = \<lparr>d_revenue = 100000, d_quantity = 10, d_totalCost = 50000\<rparr> \<and>
        s_quantity item = 0 \<and> s_totalSold item = 10 \<longrightarrow>
      realizedProfit (productMetrics m days item) = 50000 \<and>
      profitMargin (productMetrics m days item) = 50 \<and>
      realizationRate (productMetrics m days item) = 100 \<and>
      performanceCategory (productMetrics m days item) = ''COMPLETED_PROFITABLE'')"
  by (simp add: productMetrics_def Let_def categorizePerformance_def)

theorem sold_out_classified_completed_witness:
  "categorizePerformance (- 5) 7 100 0 = ''COMPLETED_LOSS'' \<and>
   currentStock (productMetrics (aggregate (entries scenarioA)) 30
      \<lparr>s_id = ''p1'', s_name = ''A'', s_quantity = 0, s_totalSold = 10\<rparr>) = 0 \<and>
   realizationRate (productMetrics (aggregate (entries scenarioA)) 30
      \<lparr>s_id = ''p1'', s_name = ''A'', s_quantity = 0, s_totalSold = 10\<rparr>) = 100 \<and>
   realizedProfit (productMetrics (aggregate (entries scenarioA)) 30
      \<lparr>s_id = ''p1'', s_name = ''A'', s_quantity = 0, s_totalSold = 10\<rparr>) = 50000 \<and>
   profitMargin (productMetrics (aggregate (entries scenarioA)) 30
      \<lparr>s_id = ''p1'', s_name = ''A'', s_quantity = 0, s_totalSold = 10\<rparr>) = 50 \<and>
   performanceCategory (productMetrics (aggregate (entries scenarioA)) 30
      \<lparr>s_id = ''p1'', s_name = ''A'', s_quantity = 0, s_totalSold = 10\<rparr>) =
     ''COMPLETED_PROFITABLE''"
proof -
  have c: "currentStock (productMetrics (aggregate (entries scenarioA)) 30
      \<lparr>s_id = ''p1'', s_name = ''A'', s_quantity = 0, s_totalSold = 10\<rparr>) = 0"
    by (simp add: productMetrics_def Let_def)
  note t = sold_out_classified_completed[of 0 100 "- 5" 7 "aggregate (entries scenarioA)" 30
      "\<lparr>s_id = ''p1'', s_name = ''A'', s_quantity = 0, s_totalSold = 10\<rparr>"]
  from t c show ?thesis
    by (simp add: aggregate_scenarioA)
qed

text \<open>
  C3. The specification gives the score as an integer in \<open>[0, 100]\<close> whenever the six
  inputs are non-negative. The score is the rounded weighted sum of the six capped
  sub-scores and an integer (\<open>calculateScore_integer\<close>), it is 0 when the six inputs are 0
  (\<open>calculateScore_zero\<close>), and it is never negative for non-negative inputs; but the six
  weights sum to 1.1, so the bound that holds is 110 (\<open>calculateScore_bounds\<close>, reached in
  \<open>calculateScore_maximum\<close>). On scenario A of the specification, all of whose inputs are
  non-negative, the engine returns the score 103.
\<close>

theorem scenarioA_score_exceeds_100:
  "map performanceScore (products (calculateProductPerformance scenarioA)) = [103]"
proof -
  have "performanceScore (productMetrics (aggregate (entries scenarioA)) 30
          \<lparr>s_id = ''p1'', s_name = ''A'', s_quantity = 0, s_totalSold = 10\<rparr>) =
        calculateScore 100000 50000 100 2 50 100"
    by (simp add: productMetrics_def Let_def aggregate_scenarioA)
  then have "performanceScore (productMetrics (aggregate (entries scenarioA)) 30
          \<lparr>s_id = ''p1'', s_name = ''A'', s_quantity = 0, s_totalSold = 10\<rparr>) = 103"
    by (simp only: calculateScore_scenarioA)
  moreover have "stockItems scenarioA =
      [\<lparr>s_id = ''p1'', s_name = ''A'', s_quantity = 0, s_totalSold = 10\<rparr>,
       \<lparr>s_id = ''p2'', s_name = ''B'', s_quantity = 5, s_totalSold = 0\<rparr>]"
    and "daysToAnalyze scenarioA = None"
    by (simp_all add: scenarioA_def)
  ultimately show ?thesis
    by (simp add: map_products aggregate_scenarioA noData_def)
qed

text \<open>
  C4. The specification gives, for a window of 0 days, the stock runway \<open>+\<infinity>\<close>, as when
  nothing was sold (\<open>runway_without_sales\<close>). The source divides the quantity sold by the window without
  a test: with a window of 0 and a positive quantity sold the daily rate is
  \<^verbatim>\<open>Infinity\<close>, which is \<^verbatim>\<open>> 0\<close>, and the runway is the stock divided by
  \<^verbatim>\<open>Infinity\<close>, that is 0 (\<open>runway_zero_window\<close>). For a product with 2 units sold
  and 5 in stock, the engine called with a window of 0 days returns the runway 0.
\<close>

theorem zero_window_runway_is_zero:
  "map daysOfStockLeft (products (calculateProductPerformance zeroWindow)) = [Fin 0]"
proof -
  have "daysOfStockLeft (productMetrics (aggregate (entries zeroWindow)) 0
          \<lparr>s_id = ''p1'', s_name = ''A'', s_quantity = 5, s_totalSold = 2\<rparr>) = Fin 0"
    by (rule runway_zero_window) (simp add: aggregate_zeroWindow)
  moreover have "stockItems zeroWindow =
      [\<lparr>s_id = ''p1'', s_name = ''A'', s_quantity = 5, s_totalSold = 2\<rparr>]"
    and "daysToAnalyze zeroWindow = Some 0"
    by (simp_all add: zeroWindow_def)
  ultimately show ?thesis
    by (simp add: map_products aggregate_zeroWindow)
qed

text \<open>
  C5. For the returned list of \<open>N\<close> products and each of the three keys (revenue, realized
  profit, stock efficiency), the ranks read along the stable descending sort of the list on
  that key are \<open>1, 2, \<dots>, N\<close>: the record of rank \<open>i\<close> is the \<open>i\<close>-th element of that
  sort, so equal keys are ranked in their original order and never share a rank. Hence
  each rank field, over the returned list, is a permutation of \<open>1..N\<close>.
\<close>

theorem rankings_follow_stable_descending_sort:
  fixes props :: PerformanceCalculatorProps
  defines "rs \<equiv> products (calculateProductPerformance props)"
  shows "map rankByRevenue (stableSortDesc totalRevenue rs) = [1..<Suc (length rs)]
       \<and> map rankByProfit (stableSortDesc realizedProfit rs) = [1..<Suc (length rs)]
       \<and> map rankByEfficiency (stableSortDesc stockEfficiency rs) = [1..<Suc (length rs)]
       \<and> mset (map rankByRevenue rs) = mset [1..<Suc (length rs)]
       \<and> mset (map rankByProfit rs) = mset [1..<Suc (length rs)]
       \<and> mset (map rankByEfficiency rs) = mset [1..<Suc (length rs)]"
proof -
  obtain ps where rs: "rs = addRankings ps"
    unfolding rs_def by (simp add: products_calculateProductPerformance)
  have len: "length rs = length ps" by (simp add: rs)
  have a: "map rankByRevenue (stableSortDesc totalRevenue rs) = [1..<Suc (length rs)]"
    unfolding len unfolding rs by (rule addRankings_rankByRevenue)
  have "stableSortDesc realizedProfit rs = stableSortDesc estimatedProfit rs"
    by (rule stableSortDesc_cong_set) (simp add: rs_def estimatedProfit_products)
  moreover have "map rankByProfit (stableSortDesc estimatedProfit rs) = [1..<Suc (length rs)]"
    unfolding len unfolding rs by (rule addRankings_rankByProfit)
  ultimately have b: "map rankByProfit (stableSortDesc realizedProfit rs) = [1..<Suc (length rs)]"
    by simp
  have c: "map rankByEfficiency (stableSortDesc stockEfficiency rs) = [1..<Suc (length rs)]"
    unfolding len unfolding rs by (rule addRankings_rankByEfficiency)
  from a b c mset_ranks[OF a] mset_ranks[OF b] mset_ranks[OF c] show ?thesis
    by blast
qed

theorem rankings_follow_stable_descending_sort_witness:
  "map totalRevenue (products (calculateProductPerformance tieScenario)) = [100, 200, 100] \<and>
   map rankByRevenue (products (calculateProductPerformance tieScenario)) = [2, 1, 3] \<and>
   map realizedProfit (products (calculateProductPerformance tieScenario)) = [100, 200, - 200] \<and>
   map rankByProfit (products (calculateProductPerformance tieScenario)) = [2, 1, 3] \<and>
   map stockEfficiency (products (calculateProductPerformance tieScenario)) = [50, 50 / 3, 50] \<and>
   map rankByEfficiency (products (calculateProductPerformance tieScenario)) = [1, 3, 2]"
proof -
  let ?rs = "products (calculateProductPerformance tieScenario)"
  have rev: "map totalRevenue ?rs = [100, 200, 100]"
    and prof: "map realizedProfit ?rs = [100, 200, - 200]"
    and eff: "map stockEfficiency ?rs = [50, 50 / 3, 50]"
    by (simp_all add: map_products tieScenario_fields aggregate_tieScenario
          productMetrics_def Let_def)
  from rev obtain a b c where rs: "?rs = [a, b, c]"
    by (auto simp: map_eq_Cons_conv)
  have k: "totalRevenue a = 100" "totalRevenue b = 200" "totalRevenue c = 100"
    "realizedProfit a = 100" "realizedProfit b = 200" "realizedProfit c = - 200"
    "stockEfficiency a = 50" "stockEfficiency b = 50 / 3" "stockEfficiency c = 50"
    using rev prof eff by (simp_all add: rs)
  have sorted:
    "stableSortDesc totalRevenue [a, b, c] = [b, a, c]"
    "stableSortDesc realizedProfit [a, b, c] = [b, a, c]"
    "stableSortDesc stockEfficiency [a, b, c] = [a, c, b]"
    by (simp_all add: stableSortDesc_def k)
  note t = rankings_follow_stable_descending_sort[of tieScenario]
  from t have "map rankByRevenue [b, a, c] = [1..<Suc (length [a, b, c])]"
    and "map rankByProfit [b, a, c] = [1..<Suc (length [a, b, c])]"
    and "map rankByEfficiency [a, c, b] = [1..<Suc (length [a, b, c])]"
    by (simp_all only: rs sorted)
  then have "map rankByRevenue [a, b, c] = [2, 1, 3]"
    and "map rankByProfit [a, b, c] = [2, 1, 3]"
    and "map rankByEfficiency [a, b, c] = [1, 3, 2]"
    by (simp_all add: upt_rec)
  with rev prof eff show ?thesis by (simp only: rs)
qed

text \<open>
  C6, as stated, fails for the empty string as product id: a SALE entry whose
  \<open>productId\<close> is the empty string does not pass the test \<^verbatim>\<open>if (entry.productId)\<close>, so
  the aggregate of that id stays zero although an entry with that id has amount 5.
\<close>

theorem aggregate_empty_id_counterexample:
  "getData (aggregate [\<lparr>e_productId = Some [], e_type = ''SALE'', e_amount = 5,
                        e_quantity = Some 1\<rparr>]) [] \<noteq>
   spec_aggregate [\<lparr>e_productId = Some [], e_type = ''SALE'', e_amount = 5,
                    e_quantity = Some 1\<rparr>] []"
  by (simp add: getData_aggregate_empty_key noData_def spec_aggregate_def)

text \<open>
  C6, amended. For every entry list and every non-empty product id, the aggregate of that id
  has as revenue the sum of the amounts of the SALE entries with that product id, as
  quantity sold the sum of their quantities (0 when absent) and as cost the sum of the
  amounts of the EXPENSE and STOCK\_IN entries with that product id; entries of any other
  type or without product id contribute to no field. For the empty product id the
  aggregate is zero: entries whose product id is the empty string are ignored as well.
\<close>

theorem aggregate_sums_per_product:
  "getData (aggregate es) pid = (if pid = [] then noData else spec_aggregate es pid)"
  by (simp add: getData_aggregate getData_aggregate_empty_key)

theorem aggregate_sums_per_product_witness:
  "getData (aggregate (entries scenarioA)) ''p1'' =
     \<lparr>d_revenue = 100000, d_quantity = 10, d_totalCost = 50000\<rparr>"
  using aggregate_sums_per_product[of "entries scenarioA" "''p1''"]
  by (simp add: spec_aggregate_def scenarioA_def quantityOr0_def)

text \<open>
  C7, as stated, fails: the aggregator adds doubles in the order of the entries, and
  double addition is not associative. The three entries with the amounts \<^verbatim>\<open>0.1\<close>,
  \<^verbatim>\<open>0.2\<close>, \<^verbatim>\<open>0.3\<close> give the revenue \<^verbatim>\<open>0.6000000000000001\<close> in this order and
  \<^verbatim>\<open>0.6\<close> in the reverse order; the three entries with the amounts \<open>2^53\<close>, 1, 1 give
  \<open>2^53\<close> in this order and \<open>2^53 + 2\<close> in the reverse order.
\<close>

theorem aggregate64_order_counterexample:
  "mset (rev decimalEntries) = mset decimalEntries \<and>
   f_revenue (getData64 (aggregate64 decimalEntries) ''p1'') =
     Fin (1351079888211149 / 2251799813685248) \<and>
   f_revenue (getData64 (aggregate64 (rev decimalEntries)) ''p1'') =
     Fin (5404319552844595 / 9007199254740992) \<and>
   aggregate64 (rev decimalEntries) \<noteq> aggregate64 decimalEntries \<and>
   mset (rev roundingEntries) = mset roundingEntries \<and>
   f_revenue (getData64 (aggregate64 roundingEntries) ''p1'') = Fin 9007199254740992 \<and>
   f_revenue (getData64 (aggregate64 (rev roundingEntries)) ''p1'') = Fin 9007199254740994 \<and>
   aggregate64 (rev roundingEntries) \<noteq> aggregate64 roundingEntries"
proof -
  have "aggregate64 (rev decimalEntries) \<noteq> aggregate64 decimalEntries"
    using aggregate64_decimalEntries by auto
  moreover have "aggregate64 (rev roundingEntries) \<noteq> aggregate64 roundingEntries"
    using aggregate64_roundingEntries by auto
  ultimately show ?thesis
    by (simp add: aggregate64_decimalEntries aggregate64_roundingEntries)
qed

text \<open>
  C7, amended. For every entry list whose amounts and quantities are integers, with
  absolute amounts and absolute quantities that each sum to less than \<open>2^53\<close>, and every
  permutation of it, the aggregator in double precision produces the same map from product
  id to aggregate; no addition rounds, so this map is the exact one that the model of the
  engine reads, and with the stock items and the window fixed the engine returns the same
  report and summary for the permuted list as for the original.
\<close>

theorem aggregate64_permutation_invariant:
  assumes "safeEntries es" and "mset es = mset es'"
  shows "aggregate64 es = aggregate64 es' \<and>
         aggregate64 es = map_option toData64 \<circ> aggregate es \<and>
         calculateProductPerformance (props\<lparr>entries := es\<rparr>) =
         calculateProductPerformance (props\<lparr>entries := es'\<rparr>)"
proof -
  have ex: "aggregate es = aggregate es'"
    using assms(2) by (rule aggregate_permutation)
  have "safeEntries es'"
    using assms safeEntries_permutation by blast
  then have "aggregate64 es' = map_option toData64 \<circ> aggregate es'"
    by (rule aggregate64_exact)
  moreover have "aggregate64 es = map_option toData64 \<circ> aggregate es"
    using assms(1) by (rule aggregate64_exact)
  ultimately show ?thesis
    using ex by (simp add: calculateProductPerformance_def)
qed

theorem aggregate64_permutation_invariant_witness:
  "safeEntries (entries scenarioA) \<and>
   aggregate64 (entries scenarioA) = aggregate64 (rev (entries scenarioA)) \<and>
   calculateProductPerformance scenarioA =
   calculateProductPerformance (scenarioA\<lparr>entries := rev (entries scenarioA)\<rparr>)"
proof -
  have s: "safeEntries (entries scenarioA)"
    by (simp add: safeEntries_def scenarioA_def isInteger_def quantityOr0_def)
  have "mset (entries scenarioA) = mset (rev (entries scenarioA))" by simp
  from aggregate64_permutation_invariant[OF s this, of scenarioA] s show ?thesis by simp
qed

text \<open>
  C8. The fields \<open>realizationRate\<close> and \<open>stockEfficiency\<close> of the record computed for a
  stock item are equal: both are \<open>quantitySold / initialStock * 100\<close> when
  \<open>initialStock > 0\<close> and 0 otherwise, in particular when \<open>initialStock = 0\<close>. The same
  holds of every record the engine returns.
\<close>

theorem realizationRate_equals_stockEfficiency:
  "realizationRate (productMetrics m days item) = stockEfficiency (productMetrics m days item)
   \<and> stockEfficiency (productMetrics m days item) =
       (if 0 < s_totalSold item + s_quantity item
        then (d_quantity (getData m (s_id item)) / (s_totalSold item + s_quantity item)) * 100
        else 0)
   \<and> list_all (\<lambda>p. realizationRate p = stockEfficiency p)
         (products (calculateProductPerformance props))"
proof -
  let ?ps = "map (productMetrics (aggregate (entries props))
             (case daysToAnalyze props of None \<Rightarrow> 30 | Some d \<Rightarrow> d))
        (filter (\<lambda>item. 0 < d_quantity (getData (aggregate (entries props)) (s_id item)))
           (stockItems props))"
  have "map (\<lambda>p. realizationRate p = stockEfficiency p) (addRankings ?ps) =
        map (\<lambda>p. realizationRate p = stockEfficiency p) ?ps"
    by (rule map_addRankings) simp_all
  also have "\<dots> = map (\<lambda>_. True) ?ps"
    by (simp add: productMetrics_def Let_def)
  finally have "set (map (\<lambda>p. realizationRate p = stockEfficiency p)
      (products (calculateProductPerformance props))) \<subseteq> {True}"
    by (auto simp: products_calculateProductPerformance)
  then have "list_all (\<lambda>p. realizationRate p = stockEfficiency p)
         (products (calculateProductPerformance props))"
    by (auto simp: list_all_iff)
  then show ?thesis
    by (simp add: productMetrics_def Let_def)
qed

theorem realizationRate_equals_stockEfficiency_witness:
  "realizationRate (productMetrics (aggregate (entries scenarioA)) 30
      \<lparr>s_id = ''p1'', s_name = ''A'', s_quantity = 0, s_totalSold = 10\<rparr>) = 100 \<and>
   stockEfficiency (productMetrics (aggregate (entries scenarioA)) 30
      \<lparr>s_id = ''p1'', s_name = ''A'', s_quantity = 0, s_totalSold = 10\<rparr>) = 100"
  using realizationRate_equals_stockEfficiency[of "aggregate (entries scenarioA)" 30
      "\<lparr>s_id = ''p1'', s_name = ''A'', s_quantity = 0, s_totalSold = 10\<rparr>" scenarioA]
  by (simp add: aggregate_scenarioA)

text \<open>
  C9. When no stock item has \<open>unitsSold > 0\<close>, the engine returns no product, and a summary
  whose total revenue, total profit and average margin are 0 and whose three best-by
  pointers are absent.
\<close>

theorem empty_report_summary:
  fixes props :: PerformanceCalculatorProps
  defines "r \<equiv> calculateProductPerformance props"
    and "m \<equiv> aggregate (entries props)"
    and "days \<equiv> (case daysToAnalyze props of None \<Rightarrow> 30 | Some d \<Rightarrow> d)"
  assumes "\<forall>item\<in>set (stockItems props). \<not> 0 < unitsSold (productMetrics m days item)"
  shows "products r = [] \<and>
         summary r = \<lparr>sum_totalRevenue = 0, sum_totalProfit = 0, averageMargin = 0,
                        bestByRevenue = None, bestByProfit = None, bestByScore = None,
                        totalProductsAnalyzed = 0\<rparr>"
proof -
  have "filter (\<lambda>item. 0 < d_quantity (getData m (s_id item))) (stockItems props) = []"
    using assms(4) by (simp add: unitsSold_productMetrics filter_empty_conv)
  then have "products r = []"
    unfolding r_def m_def
    by (simp add: products_calculateProductPerformance addRankings_def writeRanks_def sortBy_def)
  moreover have "summary r = calculateSummary (products r)"
    unfolding r_def by (rule summary_calculateProductPerformance)
  ultimately show ?thesis
    by (simp add: calculateSummary_def bestBy_def)
qed

theorem empty_report_summary_witness:
  "products (calculateProductPerformance scenarioB) = [] \<and>
   summary (calculateProductPerformance scenarioB) =
     \<lparr>sum_totalRevenue = 0, sum_totalProfit = 0, averageMargin = 0,
        bestByRevenue = None, bestByProfit = None, bestByScore = None,
        totalProductsAnalyzed = 0\<rparr>"
proof (rule empty_report_summary)
  show "\<forall>item\<in>set (stockItems scenarioB).
      \<not> 0 < unitsSold (productMetrics (aggregate (entries scenarioB))
         (case daysToAnalyze scenarioB of None \<Rightarrow> 30 | Some d \<Rightarrow> d) item)"
    by (simp add: unitsSold_productMetrics)
       (simp add: scenarioB_def getData_aggregate spec_aggregate_def)
qed

text \<open>
  C10. Removing every entry whose product id is not the id of a stock item leaves the
  whole output of the engine, products and summary, unchanged.
\<close>

theorem unknown_product_entries_irrelevant:
  "calculateProductPerformance
     (props\<lparr>entries :=
        filter (\<lambda>e. \<exists>item\<in>set (stockItems props). e_productId e = Some (s_id item))
          (entries props)\<rparr>) =
   calculateProductPerformance props"
proof -
  let ?keep = "\<lambda>e. \<exists>item\<in>set (stockItems props). e_productId e = Some (s_id item)"
  let ?days = "case daysToAnalyze props of None \<Rightarrow> 30 | Some d \<Rightarrow> d"
  have eq: "map (productMetrics (aggregate (filter ?keep (entries props))) ?days) (stockItems props) =
        map (productMetrics (aggregate (entries props)) ?days) (stockItems props)"
  proof (rule map_cong[OF refl])
    fix item assume "item \<in> set (stockItems props)"
    then have "getData (aggregate (filter ?keep (entries props))) (s_id item) =
               getData (aggregate (entries props)) (s_id item)"
      by (intro getData_aggregate_filter) blast
    then show "productMetrics (aggregate (filter ?keep (entries props))) ?days item =
               productMetrics (aggregate (entries props)) ?days item"
      by (rule productMetrics_cong)
  qed
  show ?thesis
    by (simp add: calculateProductPerformance_def eq)
qed

theorem unknown_product_entries_irrelevant_witness:
  "calculateProductPerformance (scenarioB\<lparr>entries := []\<rparr>) =
   calculateProductPerformance scenarioB"
  using unknown_product_entries_irrelevant[of scenarioB]
  by (simp add: scenarioB_def)

end
